theory Spec2Isabelle
  imports Complex_Main "HOL-Library.Sublist"
begin

section \<open>Strings and numbers of the host language\<close>

text \<open>
  Strings are lists of characters. Text outside ASCII (the Korean section title, the arrow
  of a reason line) is carried as its UTF-8 bytes; every operation used below (concatenation,
  search for a substring, comparison) commutes with that encoding.

  The counters of the plugin are JavaScript numbers, that is IEEE doubles, that only ever
  hold integer counts (they start at 0 or at a map size and are incremented by one). They
  are modelled by \<open>int\<close> and \<open>nat\<close>. Integer arithmetic on doubles is exact as long as the
  values stay within \<open>2 ^ 53\<close>, which is where the model and the code agree; above it
  \<open>remaining - 1\<close> is rounded by the code and not by the model.
\<close>

text \<open>The character of a decimal digit \<open>d < 10\<close>.\<close>

definition digit_char :: "nat \<Rightarrow> char" where
  "digit_char d = ''0123456789'' ! d"

text \<open>\<open>Number.prototype.toString()\<close> on a non-negative integer: its decimal digits.\<close>

fun toString :: "nat \<Rightarrow> string" where
  "toString n = (if n < 10 then [digit_char n] else toString (n div 10) @ [digit_char (n mod 10)])"

declare toString.simps [simp del]

text \<open>\<open>String.fromCharCode(c)\<close> for a code below 128.\<close>

definition fromCharCode :: "nat \<Rightarrow> string" where
  "fromCharCode c = [char_of c]"

section \<open>The Luhmann-style identifier (\<open>toLuhmannId\<close>)\<close>

text \<open>
  The \<open>while (remaining > 0)\<close> loop of \<open>toLuhmannId\<close>, with its three variables:
  \<open>result.push(s)\<close> appends at the end. For \<open>remaining \<le> 2 ^ 53\<close> every value the code
  computes (\<open>remaining - 1\<close>, the remainders, \<open>Math.floor\<close> of the quotients) is the integer
  computed here. Above \<open>2 ^ 53\<close> the code works on rounded values: it returns one and the
  same string for 9007199254740996 and 9007199254740998, for instance. The counter that
  \<open>generateZKId\<close> passes never exceeds \<open>2 ^ 53\<close>.
\<close>

function luhmann_loop :: "int \<Rightarrow> nat \<Rightarrow> string list \<Rightarrow> string list" where
  "luhmann_loop remaining level result =
     (if remaining > 0 then
        (if level mod 2 = 0 then
           luhmann_loop ((remaining - 1) div 9) (level + 1)
             (result @ [toString (nat ((remaining - 1) mod 9 + 1))])
         else
           luhmann_loop ((remaining - 1) div 26) (level + 1)
             (result @ [fromCharCode (nat (97 + (remaining - 1) mod 26))]))
      else result)"
  by pat_completeness auto
termination
  by (relation "measure (\<lambda>(remaining, level, result). nat remaining)") auto

declare luhmann_loop.simps [simp del]

text \<open>\<open>result.reverse().join("")\<close> closes the function; \<open>num <= 0\<close> returns early.\<close>

definition toLuhmannId :: "int \<Rightarrow> string" where
  "toLuhmannId num = (if num \<le> 0 then ''1'' else concat (rev (luhmann_loop num 0 [])))"

text \<open>
  The encoding as the specification words it: at each level emit the digit
  \<open>((remaining - 1) mod 9) + 1\<close> (even level) or the letter for \<open>(remaining - 1) mod 26\<close>
  (odd level), continue with the quotient while \<open>remaining > 0\<close>, and concatenate the
  emitted symbols in reverse emission order. It is compared with \<open>toLuhmannId\<close> below.
\<close>

function luhmann_emit :: "int \<Rightarrow> nat \<Rightarrow> string list" where
  "luhmann_emit remaining level =
     (if remaining > 0 then
        (if even level then
           [digit_char (nat ((remaining - 1) mod 9 + 1))] # luhmann_emit ((remaining - 1) div 9) (Suc level)
         else
           [char_of (nat (97 + (remaining - 1) mod 26))] # luhmann_emit ((remaining - 1) div 26) (Suc level))
      else [])"
  by pat_completeness auto
termination
  by (relation "measure (\<lambda>(remaining, level). nat remaining)") auto

declare luhmann_emit.simps [simp del]

definition Luhmann :: "int \<Rightarrow> string" where
  "Luhmann counter = (if counter \<le> 0 then ''1'' else concat (rev (luhmann_emit counter 0)))"

section \<open>Values parsed from a classifier response\<close>

text \<open>
  What \<open>JSON.parse\<close> returns. A JSON number is carried as a real (a finite double is one);
  an object is its list of properties, read by name. \<open>undefined\<close> is \<open>None\<close> of
  \<open>json option\<close>.
\<close>

datatype json =
    JNull
  | JBool bool
  | JNum real
  | JStr string
  | JArr "json list"
  | JObj "(string \<times> json) list"

text \<open>
  The two library steps in front of every parser, \<open>text.match(...)\<close> and
  \<open>JSON.parse(jsonMatch[0])\<close>, have three outcomes: the pattern is not found, the
  matched text is not JSON (\<open>JSON.parse\<close> throws), or a value is parsed.
\<close>

datatype response = NoMatch | Invalid | Parsed json

datatype js_error =
  TypeError | SyntaxError | NoJsonInResponse | ResponseParseFailed | ApiError | FileNotFound

text \<open>
  Reading a property \<open>item.k\<close>: on \<open>null\<close> it throws a TypeError (the callers below test
  for \<open>JNull\<close> first); on an object it is the property or \<open>undefined\<close>; the other values
  have none of the properties read here.
\<close>

fun field :: "json \<Rightarrow> string \<Rightarrow> json option" where
  "field (JObj fs) k = map_of fs k"
| "field _ k = None"

text \<open>JavaScript truthiness, for \<open>v || d\<close>; and \<open>v ?? d\<close>.\<close>

fun truthy :: "json option \<Rightarrow> bool" where
  "truthy None = False"
| "truthy (Some JNull) = False"
| "truthy (Some (JBool b)) = b"
| "truthy (Some (JNum x)) = (x \<noteq> 0)"
| "truthy (Some (JStr s)) = (s \<noteq> [])"
| "truthy (Some (JArr xs)) = True"
| "truthy (Some (JObj fs)) = True"

fun or_else :: "json option \<Rightarrow> json \<Rightarrow> json" where
  "or_else None d = d"
| "or_else (Some v) d = (if truthy (Some v) then v else d)"

fun nullish_else :: "json option \<Rightarrow> json \<Rightarrow> json" where
  "nullish_else None d = d"
| "nullish_else (Some JNull) d = d"
| "nullish_else (Some v) d = v"

fun isNumber :: "json option \<Rightarrow> bool" where
  "isNumber (Some (JNum x)) = True"
| "isNumber _ = False"

text \<open>The number in a property that \<open>isNumber\<close> has accepted.\<close>

fun numberOf :: "json option \<Rightarrow> real" where
  "numberOf (Some (JNum x)) = x"
| "numberOf _ = 0"

text \<open>\<open>xs.filter(p)\<close> and \<open>xs.map(f)\<close> with a callback that may throw: the first throw ends the call.\<close>

fun filter_throwing :: "('a \<Rightarrow> js_error + bool) \<Rightarrow> 'a list \<Rightarrow> js_error + 'a list" where
  "filter_throwing p [] = Inr []"
| "filter_throwing p (x # xs) =
     (case p x of
        Inl e \<Rightarrow> Inl e
      | Inr b \<Rightarrow>
          (case filter_throwing p xs of
             Inl e \<Rightarrow> Inl e
           | Inr ys \<Rightarrow> Inr (if b then x # ys else ys)))"

fun map_throwing :: "('a \<Rightarrow> js_error + 'b) \<Rightarrow> 'a list \<Rightarrow> js_error + 'b list" where
  "map_throwing f [] = Inr []"
| "map_throwing f (x # xs) =
     (case f x of
        Inl e \<Rightarrow> Inl e
      | Inr y \<Rightarrow>
          (case map_throwing f xs of
             Inl e \<Rightarrow> Inl e
           | Inr ys \<Rightarrow> Inr (y # ys)))"

section \<open>\<open>validateTargetType\<close>, \<open>parseProjectResponse\<close>, \<open>parseSplitResponse\<close>\<close>

definition validTypes :: "string list" where
  "validTypes = [''project'', ''library'', ''archive'']"

text \<open>
  \<open>validTypes.includes(targetType)\<close> compares with SameValueZero, so only a string equal to
  one of the three is found; whatever else the classifier supplied becomes \<open>"library"\<close>.
\<close>

fun validateTargetType :: "json option \<Rightarrow> string" where
  "validateTargetType (Some (JStr s)) = (if s \<in> set validTypes then s else ''library'')"
| "validateTargetType _ = ''library''"

record ClassifyResult =
  cr_targetType :: string
  cr_projectName :: "json option"
  cr_isNewProject :: json
  cr_title :: json
  cr_summary :: json
  cr_nextAction :: json

text \<open>
  \<open>parseProjectResponse\<close>: no match throws; inside the \<open>try\<close>, \<open>JSON.parse\<close> or a property
  read on \<open>null\<close> throws, and the \<open>catch\<close> throws the parse failure.
\<close>

definition parseProjectResponse :: "response \<Rightarrow> js_error + ClassifyResult" where
  "parseProjectResponse r =
     (case r of
        NoMatch \<Rightarrow> Inl NoJsonInResponse
      | Invalid \<Rightarrow> Inl ResponseParseFailed
      | Parsed JNull \<Rightarrow> Inl ResponseParseFailed
      | Parsed parsed \<Rightarrow>
          Inr \<lparr> cr_targetType = validateTargetType (field parsed ''targetType''),
                cr_projectName =
                  (if truthy (field parsed ''projectName'') then field parsed ''projectName'' else None),
                cr_isNewProject = nullish_else (field parsed ''isNewProject'') (JBool False),
                cr_title = or_else (field parsed ''title'') (JStr ''Untitled''),
                cr_summary = or_else (field parsed ''summary'') (JStr []),
                cr_nextAction = or_else (field parsed ''nextAction'') JNull \<rparr>)"

text \<open>
  \<open>classifyProject\<close> returns what \<open>parseProjectResponse\<close> makes of the reply; the call to
  the service may itself throw (\<open>Inl\<close>).
\<close>

definition classifyProject :: "js_error + response \<Rightarrow> js_error + ClassifyResult" where
  "classifyProject reply = (case reply of Inl e \<Rightarrow> Inl e | Inr r \<Rightarrow> parseProjectResponse r)"

record SplitSection =
  ss_title :: json
  ss_content :: json
  ss_targetType :: string
  ss_project :: "json option"
  ss_isNewProject :: json
  ss_keywords :: "json list"
  ss_isAtomic :: json

fun splitItem :: "json \<Rightarrow> js_error + SplitSection" where
  "splitItem JNull = Inl TypeError"
| "splitItem item =
     Inr \<lparr> ss_title = or_else (field item ''title'') (JStr ''Untitled''),
           ss_content = or_else (field item ''content'') (JStr []),
           ss_targetType = validateTargetType (field item ''targetType''),
           ss_project =
             (if truthy (field item ''projectName'') then field item ''projectName'' else None),
           ss_isNewProject = nullish_else (field item ''isNewProject'') (JBool False),
           ss_keywords = (case field item ''keywords'' of Some (JArr ks) \<Rightarrow> ks | _ \<Rightarrow> []),
           ss_isAtomic = nullish_else (field item ''isAtomic'') (JBool False) \<rparr>"

definition parseSplitResponse :: "response \<Rightarrow> SplitSection list" where
  "parseSplitResponse r =
     (case r of
        Parsed (JArr items) \<Rightarrow>
          (case map_throwing splitItem items of Inl e \<Rightarrow> [] | Inr sections \<Rightarrow> sections)
      | _ \<Rightarrow> [])"

definition splitContent :: "js_error + response \<Rightarrow> js_error + SplitSection list" where
  "splitContent reply = (case reply of Inl e \<Rightarrow> Inl e | Inr r \<Rightarrow> Inr (parseSplitResponse r))"

section \<open>\<open>parseRelatedNotesResponse\<close>\<close>

text \<open>
  One entry of the relatedness result, \<open>{index, relevance, reason, type}\<close>. The reason
  and the type are whatever the reply held (\<open>'r = json\<close>) until the declared return type of
  the gateway makes them optional strings (\<open>'r = string option\<close>).
\<close>

record 'r ai_result =
  index :: real
  ai_relevance :: real
  ai_reason :: 'r
  ai_type :: 'r

text \<open>
  The type guard of the first \<open>filter\<close>:
  \<open>typeof item === "object" && typeof item.index === "number" && typeof item.relevance === "number"\<close>.
  \<open>typeof null\<close> is \<open>"object"\<close>, so the guard goes on to read \<open>null.index\<close> and throws;
  an array is an \<open>"object"\<close> with neither property; the other values fail the first test.
\<close>

fun relatedItemGuard :: "json \<Rightarrow> js_error + bool" where
  "relatedItemGuard JNull = Inl TypeError"
| "relatedItemGuard (JObj fs) =
     Inr (isNumber (field (JObj fs) ''index'') \<and> isNumber (field (JObj fs) ''relevance''))"
| "relatedItemGuard (JArr xs) =
     Inr (isNumber (field (JArr xs) ''index'') \<and> isNumber (field (JArr xs) ''relevance''))"
| "relatedItemGuard _ = Inr False"

definition itemRelevance :: "json \<Rightarrow> real" where
  "itemRelevance item = numberOf (field item ''relevance'')"

definition relatedItem :: "json \<Rightarrow> json ai_result" where
  "relatedItem item =
     \<lparr> index = numberOf (field item ''index''),
       ai_relevance = itemRelevance item,
       ai_reason = or_else (field item ''reason'') (JStr []),
       ai_type = or_else (field item ''type'') (JStr []) \<rparr>"

text \<open>
  \<open>.filter(guard).filter(relevance >= 0.5).sort((a, b) => b.relevance - a.relevance)
  .slice(0, 5).map(...)\<close>; the sort is stable and orders by the key \<open>- relevance\<close>. Any
  throw inside the \<open>try\<close> is caught and gives the empty list.
\<close>

definition parseRelatedNotesResponse :: "response \<Rightarrow> json ai_result list" where
  "parseRelatedNotesResponse r =
     (case r of
        Parsed (JArr items) \<Rightarrow>
          (case filter_throwing relatedItemGuard items of
             Inl e \<Rightarrow> []
           | Inr guarded \<Rightarrow>
               map relatedItem
                 (take 5
                   (sort_key (\<lambda>item. - itemRelevance item)
                     (filter (\<lambda>item. itemRelevance item \<ge> 1 / 2) guarded))))
      | _ \<Rightarrow> [])"

section \<open>The note index (\<open>RelatedNoteFinder\<close>)\<close>

text \<open>
  \<open>NoteIndex\<close> as \<open>indexNote\<close> builds it; \<open>note_keywords\<close> is its \<open>keywords\<close> and
  \<open>noteType\<close> its \<open>type\<close> (\<open>'zettel'\<close>, \<open>'zk-index'\<close>, ... or absent). The \<open>category\<close> property that \<open>indexNote\<close>
  also fills is read by none of the functions below and is left out.
\<close>

record NoteIndex =
  path :: string
  title :: string
  note_keywords :: "string list"
  project :: "string option"
  noteType :: "string option"

text \<open>
  A JavaScript \<open>Map\<close> iterates in insertion order: it is the list of its entries.
  \<open>map_set\<close> is \<open>Map.prototype.set\<close> (an existing key keeps its place), \<open>map_delete\<close> is
  \<open>Map.prototype.delete\<close>, \<open>map_get\<close> is \<open>Map.prototype.get\<close>.
\<close>

fun map_set :: "('k \<times> 'v) list \<Rightarrow> 'k \<Rightarrow> 'v \<Rightarrow> ('k \<times> 'v) list" where
  "map_set [] k v = [(k, v)]"
| "map_set ((k', v') # m) k v = (if k' = k then (k, v) # m else (k', v') # map_set m k v)"

definition map_delete :: "('k \<times> 'v) list \<Rightarrow> 'k \<Rightarrow> ('k \<times> 'v) list" where
  "map_delete m k = filter (\<lambda>(k', v). k' \<noteq> k) m"

definition map_get :: "('k \<times> 'v) list \<Rightarrow> 'k \<Rightarrow> 'v option" where
  "map_get m k = map_of m k"

type_synonym note_index = "(string \<times> NoteIndex) list"

text \<open>
  A markdown file as \<open>indexNote\<close> sees it: its path, its basename and the frontmatter of
  the metadata cache. \<open>keywords\<close> in the frontmatter is a list or a single value.
\<close>

datatype fm_keywords = KeywordList "string list" | KeywordValue string

record frontmatter =
  fm_title :: "string option"
  fm_keywords :: "fm_keywords option"
  fm_project :: "string option"
  fm_type :: "string option"

record md_file =
  file_path :: string
  file_basename :: string
  file_frontmatter :: "frontmatter option"

definition indexNote :: "md_file \<Rightarrow> NoteIndex" where
  "indexNote file =
     (let fm = file_frontmatter file in
      \<lparr> path = file_path file,
        title = (case Option.bind fm fm_title of
                   Some t \<Rightarrow> if t \<noteq> [] then t else file_basename file
                 | None \<Rightarrow> file_basename file),
        note_keywords = (case Option.bind fm fm_keywords of
                      Some (KeywordList ks) \<Rightarrow> ks
                    | Some (KeywordValue k) \<Rightarrow> if k \<noteq> [] then [k] else []
                    | None \<Rightarrow> []),
        project = Option.bind fm fm_project,
        noteType = Option.bind fm fm_type \<rparr>)"

definition updateIndex :: "note_index \<Rightarrow> md_file \<Rightarrow> note_index" where
  "updateIndex idx file = map_set idx (file_path file) (indexNote file)"

definition removeFromIndex :: "note_index \<Rightarrow> string \<Rightarrow> note_index" where
  "removeFromIndex idx p = map_delete idx p"

definition buildIndex :: "md_file list \<Rightarrow> note_index" where
  "buildIndex files = foldl updateIndex [] files"

text \<open>\<open>getZettelIndex\<close>: a new \<open>Map\<close> of the entries whose type is \<open>"zettel"\<close>.\<close>

definition getZettelIndex :: "note_index \<Rightarrow> note_index" where
  "getZettelIndex idx =
     foldl (\<lambda>zettelIndex (p, n). if noteType n = Some ''zettel'' then map_set zettelIndex p n
                                 else zettelIndex) [] idx"

definition getZettelCount :: "note_index \<Rightarrow> nat" where
  "getZettelCount idx = length (getZettelIndex idx)"

section \<open>The keyword prefilter (\<open>filterByKeywords\<close>, \<open>filterZettelsByKeywords\<close>)\<close>

text \<open>\<open>s.includes(t)\<close>: \<open>t\<close> occurs in \<open>s\<close> as a contiguous run.\<close>

fun str_includes :: "'a list \<Rightarrow> 'a list \<Rightarrow> bool" where
  "str_includes [] t = (t = [])"
| "str_includes (c # s) t = (prefix t (c # s) \<or> str_includes s t)"

text \<open>
  \<open>new Set(xs)\<close> in iteration order: each value once, at its first position.
\<close>

definition newSet :: "'a list \<Rightarrow> 'a list" where
  "newSet xs = rev (remdups (rev xs))"

text \<open>
  The test of the inner loop, on the lower-cased note keyword and one lower-cased search
  keyword: equal, or either one contained in the other.
\<close>

definition keywordMatches :: "string \<Rightarrow> string \<Rightarrow> bool" where
  "keywordMatches lowerKeyword searchKeyword =
     (lowerKeyword = searchKeyword
      \<or> str_includes lowerKeyword searchKeyword
      \<or> str_includes searchKeyword lowerKeyword)"

text \<open>
  The two nested loops over \<open>note.keywords\<close> and \<open>keywordSet\<close>: a note keyword is pushed once,
  at the first search keyword that matches it. \<open>toLowerCase\<close> is the host's
  \<open>String.prototype.toLowerCase\<close>, a parameter of the model.
\<close>

definition matchKeywords :: "(string \<Rightarrow> string) \<Rightarrow> string list \<Rightarrow> string list \<Rightarrow> string list" where
  "matchKeywords toLowerCase keywordSet noteKeywords =
     filter (\<lambda>noteKeyword. list_ex (keywordMatches (toLowerCase noteKeyword)) keywordSet)
       noteKeywords"

text \<open>A prefilter candidate \<open>{note, matchedKeywords}\<close>; \<open>the_note\<close> is its \<open>note\<close>.\<close>

record candidate =
  the_note :: NoteIndex
  matchedKeywords :: "string list"

text \<open>
  \<open>excludePath && path === excludePath\<close>: the optional argument excludes a path when it is
  given and truthy, that is, not the empty string.
\<close>

fun isExcluded :: "string option \<Rightarrow> string \<Rightarrow> bool" where
  "isExcluded None p = False"
| "isExcluded (Some excludePath) p = (excludePath \<noteq> [] \<and> p = excludePath)"

fun collectCandidates ::
  "(string \<Rightarrow> string) \<Rightarrow> string list \<Rightarrow> string option \<Rightarrow> note_index \<Rightarrow> candidate list" where
  "collectCandidates toLowerCase keywordSet excludePath [] = []"
| "collectCandidates toLowerCase keywordSet excludePath ((p, n) # entries) =
     (if isExcluded excludePath p then collectCandidates toLowerCase keywordSet excludePath entries
      else if length (note_keywords n) = 0 then
        collectCandidates toLowerCase keywordSet excludePath entries
      else if length (matchKeywords toLowerCase keywordSet (note_keywords n)) > 0 then
        \<lparr> the_note = n, matchedKeywords = matchKeywords toLowerCase keywordSet (note_keywords n) \<rparr>
          # collectCandidates toLowerCase keywordSet excludePath entries
      else collectCandidates toLowerCase keywordSet excludePath entries)"

text \<open>
  The body that \<open>filterByKeywords\<close> and \<open>filterZettelsByKeywords\<close> share word for word:
  collect, sort by the number of matched keywords (most first; the sort is stable), keep the
  first ten.
\<close>

definition prefilter ::
  "(string \<Rightarrow> string) \<Rightarrow> string list \<Rightarrow> string option \<Rightarrow> note_index \<Rightarrow> candidate list" where
  "prefilter toLowerCase keywords excludePath entries =
     take 10
       (sort_key (\<lambda>c. - int (length (matchedKeywords c)))
         (collectCandidates toLowerCase (newSet (map toLowerCase keywords)) excludePath entries))"

definition filterByKeywords ::
  "(string \<Rightarrow> string) \<Rightarrow> note_index \<Rightarrow> string list \<Rightarrow> string option \<Rightarrow> candidate list" where
  "filterByKeywords toLowerCase idx keywords excludePath =
     prefilter toLowerCase keywords excludePath idx"

definition filterZettelsByKeywords ::
  "(string \<Rightarrow> string) \<Rightarrow> string list \<Rightarrow> note_index \<Rightarrow> string option \<Rightarrow> candidate list" where
  "filterZettelsByKeywords toLowerCase keywords zettelIndex excludePath =
     prefilter toLowerCase keywords excludePath zettelIndex"

section \<open>The hybrid search (\<open>findRelated\<close>, \<open>findRelatedZettels\<close>)\<close>

record RelatedNote = candidate +
  relevance :: real
  reason :: string
  connectionType :: string

text \<open>\<open>xs.join(sep)\<close>.\<close>

fun join :: "string \<Rightarrow> string list \<Rightarrow> string" where
  "join sep [] = []"
| "join sep [x] = x"
| "join sep (x # y # ys) = x @ sep @ join sep (y # ys)"

definition newline :: string where
  "newline = [CHR 0x0A]"

text \<open>The Korean word for "keywords" of the candidate lines, in UTF-8.\<close>

definition keywordsLabel :: string where
  "keywordsLabel = [CHR 0xED, CHR 0x82, CHR 0xA4, CHR 0xEC, CHR 0x9B, CHR 0x8C, CHR 0xEB, CHR 0x93, CHR 0x9C]"

text \<open>The title that \<open>findRelatedZettels\<close> passes to the classifier ("new ZK note").\<close>

definition newZkNoteTitle :: string where
  "newZkNoteTitle = [CHR 0xEC, CHR 0x83, CHR 0x88, CHR 0x20, CHR 0x5A, CHR 0x4B, CHR 0x20,
                     CHR 0xEB, CHR 0x85, CHR 0xB8, CHR 0xED, CHR 0x8A, CHR 0xB8]"

definition candidatesText :: "candidate list \<Rightarrow> string" where
  "candidatesText candidates =
     join newline
       (map (\<lambda>(i, c). toString i @ ''. '' @ title (the_note c) @ '' ('' @ keywordsLabel @ '': ''
                        @ join '', '' (note_keywords (the_note c)) @ '')'')
         (enumerate 0 candidates))"

text \<open>
  The loop that turns the classifier's entries into \<open>RelatedNote\<close>s. An entry is used when
  \<open>result.index >= 0 && result.index < candidates.length\<close>; \<open>candidates[result.index]\<close> is
  then an element when the index is an integer and \<open>undefined\<close> otherwise, and reading
  \<open>.note\<close> of \<open>undefined\<close> throws.
\<close>

definition toRelatedNote :: "candidate \<Rightarrow> string option ai_result \<Rightarrow> RelatedNote" where
  "toRelatedNote c result =
     \<lparr> the_note = the_note c,
       matchedKeywords = matchedKeywords c,
       relevance = ai_relevance result,
       reason = (case ai_reason result of Some s \<Rightarrow> s | None \<Rightarrow> []),
       connectionType = (case ai_type result of Some s \<Rightarrow> s | None \<Rightarrow> []) \<rparr>"

fun mapAiResults ::
  "candidate list \<Rightarrow> string option ai_result list \<Rightarrow> RelatedNote list
     \<Rightarrow> js_error + RelatedNote list" where
  "mapAiResults candidates [] results = Inr results"
| "mapAiResults candidates (result # aiResults) results =
     (if index result \<ge> 0 \<and> index result < real (length candidates) then
        (if of_int \<lfloor>index result\<rfloor> = index result then
           mapAiResults candidates aiResults
             (results @ [toRelatedNote (candidates ! nat \<lfloor>index result\<rfloor>) result])
         else Inl TypeError)
      else mapAiResults candidates aiResults results)"

text \<open>
  \<open>gemini.findRelatedNotes(title, keywords, candidatesText)\<close> and
  \<open>gemini.extractKeywords(content)\<close> are calls to the external classifier: the first is the
  parameter \<open>findRelatedNotes\<close>, at its declared type; the second is the value it returned.
  Either may throw.
\<close>

type_synonym gateway = "string \<Rightarrow> string list \<Rightarrow> string \<Rightarrow> js_error + string option ai_result list"

definition findRelatedZettels ::
  "(string \<Rightarrow> string) \<Rightarrow> gateway \<Rightarrow> note_index \<Rightarrow> string list \<Rightarrow> string option
     \<Rightarrow> js_error + RelatedNote list" where
  "findRelatedZettels toLowerCase findRelatedNotes idx keywords excludePath =
     (if length keywords = 0 then Inr []
      else
        let zettelIndex = getZettelIndex idx in
        if length zettelIndex = 0 then Inr []
        else
          let candidates = filterZettelsByKeywords toLowerCase keywords zettelIndex excludePath in
          if length candidates = 0 then Inr []
          else
            (case findRelatedNotes newZkNoteTitle keywords (candidatesText candidates) of
               Inl e \<Rightarrow> Inl e
             | Inr aiResults \<Rightarrow> mapAiResults candidates aiResults []))"

definition findRelated ::
  "(string \<Rightarrow> string) \<Rightarrow> gateway \<Rightarrow> note_index \<Rightarrow> js_error + string list \<Rightarrow> string
     \<Rightarrow> string option \<Rightarrow> js_error + RelatedNote list" where
  "findRelated toLowerCase findRelatedNotes idx extractedKeywords noteTitle excludePath =
     (case extractedKeywords of
        Inl e \<Rightarrow> Inl e
      | Inr keywords \<Rightarrow>
          if length keywords = 0 then Inr []
          else
            let candidates = filterByKeywords toLowerCase idx keywords excludePath in
            if length candidates = 0 then Inr []
            else
              (case findRelatedNotes noteTitle keywords (candidatesText candidates) of
                 Inl e \<Rightarrow> Inl e
               | Inr aiResults \<Rightarrow> mapAiResults candidates aiResults []))"

section \<open>The identifier allocator (\<open>initializeZKCounters\<close>, \<open>generateZKId\<close>)\<close>

text \<open>
  The two counters of the plugin: \<open>zkDailyCounter\<close>, a \<open>Map\<close> from a date \<open>YYYYMMDD\<close> to
  the highest sequence number used on it, and \<open>zkLuhmannCounter\<close>. At start the map is empty
  and the counter is 0.
\<close>

record zk_counters =
  zkDailyCounter :: "(string \<times> nat) list"
  zkLuhmannCounter :: int

definition initial_counters :: zk_counters where
  "initial_counters = \<lparr> zkDailyCounter = [], zkLuhmannCounter = 0 \<rparr>"

text \<open>\<open>this.zkDailyCounter.get(date) || 0\<close>.\<close>

definition dailyCount :: "zk_counters \<Rightarrow> string \<Rightarrow> nat" where
  "dailyCount st date = (case map_get (zkDailyCounter st) date of Some c \<Rightarrow> c | None \<Rightarrow> 0)"

text \<open>\<open>path.split("/").pop() || ""\<close>: what follows the last slash.\<close>

definition fileNameOf :: "string \<Rightarrow> string" where
  "fileNameOf p = rev (takeWhile (\<lambda>c. c \<noteq> CHR ''/'') (rev p))"

definition isDigit :: "char \<Rightarrow> bool" where
  "isDigit c = (c \<in> set ''0123456789'')"

text \<open>
  \<open>fileName.match(/^(\d{8})-(\d{3})/)\<close>: eight digits, a dash, three digits at the start of
  the name; the groups are the date and the sequence.
\<close>

definition dateSeqMatch :: "string \<Rightarrow> (string \<times> string) option" where
  "dateSeqMatch fileName =
     (if length fileName \<ge> 12
         \<and> list_all isDigit (take 8 fileName)
         \<and> fileName ! 8 = CHR ''-''
         \<and> list_all isDigit (take 3 (drop 9 fileName))
      then Some (take 8 fileName, take 3 (drop 9 fileName))
      else None)"

text \<open>\<open>parseInt(s, 10)\<close> on a string of digits.\<close>

definition digitValue :: "char \<Rightarrow> nat" where
  "digitValue c = of_char c - 48"

definition parseInt :: "string \<Rightarrow> nat" where
  "parseInt s = foldl (\<lambda>acc c. 10 * acc + digitValue c) 0 s"

text \<open>
  One round of the loop of \<open>initializeZKCounters\<close> over the Zettel index, whose size is
  \<open>zettelCount\<close>.
\<close>

definition seedCounters :: "nat \<Rightarrow> zk_counters \<Rightarrow> string \<times> NoteIndex \<Rightarrow> zk_counters" where
  "seedCounters zettelCount st entry =
     (let fileName = fileNameOf (fst entry);
          st1 = (case dateSeqMatch fileName of
                   Some (date, seqDigits) \<Rightarrow>
                     if parseInt seqDigits > dailyCount st date
                     then st\<lparr>zkDailyCounter := map_set (zkDailyCounter st) date (parseInt seqDigits)\<rparr>
                     else st
                 | None \<Rightarrow> st)
      in st1\<lparr>zkLuhmannCounter := max (zkLuhmannCounter st1) (int zettelCount)\<rparr>)"

definition initializeZKCounters :: "zk_counters \<Rightarrow> note_index \<Rightarrow> zk_counters" where
  "initializeZKCounters st idx =
     (let zettelIndex = getZettelIndex idx
      in foldl (seedCounters (length zettelIndex)) st zettelIndex)"

text \<open>
  The clock as \<open>generateZKId\<close> reads it: \<open>Date.now()\<close> in milliseconds, and the date
  \<open>new Date().toISOString().slice(0, 10).replace(/-/g, "")\<close>.
\<close>

record clock =
  now :: nat
  today :: string

text \<open>\<open>s.padStart(n, c)\<close> with a one-character filler.\<close>

definition padStart :: "nat \<Rightarrow> char \<Rightarrow> string \<Rightarrow> string" where
  "padStart n c s = replicate (n - length s) c @ s"

definition generateZKId :: "string \<Rightarrow> clock \<Rightarrow> zk_counters \<Rightarrow> string \<times> zk_counters" where
  "generateZKId idType clk st =
     (if idType = ''timestamp'' then (toString (now clk), st)
      else if idType = ''date-sequence'' then
        (let count = dailyCount st (today clk) + 1
         in (today clk @ ''-'' @ padStart 3 (CHR ''0'') (toString count),
             st\<lparr>zkDailyCounter := map_set (zkDailyCounter st) (today clk) count\<rparr>))
      else if idType = ''luhmann'' then
        (toLuhmannId (zkLuhmannCounter st + 1), st\<lparr>zkLuhmannCounter := zkLuhmannCounter st + 1\<rparr>)
      else (toString (now clk), st))"

text \<open>
  \<open>createZKNotes\<close> names the file of a new note \<open>`${zettelFolder}/${zkId} ${sanitizedTitle}.md`\<close>:
  the identifier of a note is the part of its file name before the first space. The
  identifiers present in the index for Zettel notes are those of the entries of
  \<open>getZettelIndex\<close>.
\<close>

definition zkIdOf :: "string \<Rightarrow> string" where
  "zkIdOf fileName = takeWhile (\<lambda>c. c \<noteq> CHR '' '') fileName"

definition existingZKIds :: "note_index \<Rightarrow> string list" where
  "existingZKIds idx = map (\<lambda>entry. zkIdOf (fileNameOf (fst entry))) (getZettelIndex idx)"

section \<open>The merge-or-create decision of \<open>createZKNotes\<close>\<close>

text \<open>
  \<open>ZKCandidate\<close>; \<open>zk_title\<close> is its \<open>title\<close> and \<open>zk_keywords\<close> its \<open>keywords\<close>.
\<close>

record ZKCandidate =
  zk_title :: string
  body :: string
  zk_keywords :: "string list"
  importance :: "string option"
  relatedConcepts :: "string list option"

text \<open>The settings that the Zettelkasten functions read, and their defaults.\<close>

record zk_settings =
  zettelFolder :: string
  zkIdType :: string
  zkMergeThreshold :: real

definition DEFAULT_SETTINGS :: zk_settings where
  "DEFAULT_SETTINGS =
     \<lparr> zettelFolder = ''10 Zettelkasten'', zkIdType = ''date-sequence'',
       zkMergeThreshold = 8 / 10 \<rparr>"

text \<open>
  The head of the loop body, for one candidate and the \<open>similarNotes\<close> found for it:
  \<open>similarNotes.find((n) => n.relevance >= this.settings.zkMergeThreshold)\<close>; when a note
  is found, \<open>showMergeConfirmModal(candidate, highSimilarNote)\<close> is awaited and its answer
  decides between \<open>mergeToExistingZK\<close> followed by \<open>continue\<close>, and the creation of a new
  note. \<open>confirmShown\<close> records the note the modal was opened for.
\<close>

datatype zk_step = MergeInto RelatedNote | CreateNew

record merge_decision =
  confirmShown :: "RelatedNote option"
  chosen :: zk_step

definition decideMergeOrCreate ::
  "zk_settings \<Rightarrow> (ZKCandidate \<Rightarrow> RelatedNote \<Rightarrow> bool) \<Rightarrow> ZKCandidate \<Rightarrow> RelatedNote list
     \<Rightarrow> merge_decision" where
  "decideMergeOrCreate settings showMergeConfirmModal candidate similarNotes =
     (case List.find (\<lambda>n. relevance n \<ge> zkMergeThreshold settings) similarNotes of
        Some highSimilarNote \<Rightarrow>
          \<lparr> confirmShown = Some highSimilarNote,
            chosen = (if showMergeConfirmModal candidate highSimilarNote
                      then MergeInto highSimilarNote else CreateNew) \<rparr>
      | None \<Rightarrow> \<lparr> confirmShown = None, chosen = CreateNew \<rparr>)"

text \<open>
  The same with the search in front of it:
  \<open>similarNotes = await this.relatedNoteFinder.findRelatedZettels(candidate.keywords)\<close>.
\<close>

definition mergeCheck ::
  "(string \<Rightarrow> string) \<Rightarrow> gateway \<Rightarrow> note_index \<Rightarrow> zk_settings
     \<Rightarrow> (ZKCandidate \<Rightarrow> RelatedNote \<Rightarrow> bool) \<Rightarrow> ZKCandidate \<Rightarrow> js_error + merge_decision" where
  "mergeCheck toLowerCase findRelatedNotes idx settings showMergeConfirmModal candidate =
     (case findRelatedZettels toLowerCase findRelatedNotes idx (zk_keywords candidate) None of
        Inl e \<Rightarrow> Inl e
      | Inr similarNotes \<Rightarrow>
          Inr (decideMergeOrCreate settings showMergeConfirmModal candidate similarNotes))"

section \<open>The link steps of the create path (\<open>addZKRelatedLinks\<close>, \<open>addBacklinksToZettels\<close>)\<close>

text \<open>
  The vault maps the path of a file to its content. A \<open>TFile\<close> is known by its path and its
  \<open>basename\<close> (the file name without the extension).
\<close>

type_synonym vault = "string \<Rightarrow> string option"

record tfile =
  tf_path :: string
  basename :: string

text \<open>The section title of the linked notes ("linked notes"), in UTF-8.\<close>

definition linkedNotesTitle :: string where
  "linkedNotesTitle =
     [CHR 0xEC, CHR 0x97, CHR 0xB0, CHR 0xEA, CHR 0xB2, CHR 0xB0, CHR 0xEB, CHR 0x90,
      CHR 0x9C, CHR 0x20, CHR 0xEB, CHR 0x85, CHR 0xB8, CHR 0xED, CHR 0x8A, CHR 0xB8]"

text \<open>The arrow in front of a reason.\<close>

definition arrow :: string where
  "arrow =
     [CHR 0xE2, CHR 0x86, CHR 0x92]"

text \<open>The label of the source note ("original").\<close>

definition originalLabel :: string where
  "originalLabel =
     [CHR 0xEC, CHR 0x9B, CHR 0x90, CHR 0xEB, CHR 0xB3, CHR 0xB8]"

text \<open>The section titles of a new note: "core idea", "why is it important?", "context", "related concepts".\<close>

definition coreIdeaTitle :: string where
  "coreIdeaTitle =
     [CHR 0xED, CHR 0x95, CHR 0xB5, CHR 0xEC, CHR 0x8B, CHR 0xAC, CHR 0x20, CHR 0xEC,
      CHR 0x95, CHR 0x84, CHR 0xEC, CHR 0x9D, CHR 0xB4, CHR 0xEB, CHR 0x94, CHR 0x94,
      CHR 0xEC, CHR 0x96, CHR 0xB4]"

definition whyImportantTitle :: string where
  "whyImportantTitle =
     [CHR 0xEC, CHR 0x99, CHR 0x9C, CHR 0x20, CHR 0xEC, CHR 0xA4, CHR 0x91, CHR 0xEC,
      CHR 0x9A, CHR 0x94, CHR 0xED, CHR 0x95, CHR 0x9C, CHR 0xEA, CHR 0xB0, CHR 0x80,
      CHR 0x3F]"

definition contextTitle :: string where
  "contextTitle =
     [CHR 0xEB, CHR 0xA7, CHR 0xA5, CHR 0xEB, CHR 0x9D, CHR 0xBD]"

definition relatedConceptsLabel :: string where
  "relatedConceptsLabel =
     [CHR 0xEA, CHR 0xB4, CHR 0x80, CHR 0xEB, CHR 0xA0, CHR 0xA8, CHR 0x20, CHR 0xEA,
      CHR 0xB0, CHR 0x9C, CHR 0xEB, CHR 0x85, CHR 0x90]"

subsection \<open>\<open>String.prototype.replace\<close> with a replacement string\<close>

text \<open>
  The replacement string of \<open>content.replace(regex, replacement)\<close> is a template: ECMAScript's
  \<open>GetSubstitution\<close> expands \<open>$$\<close> to a dollar sign, \<open>$&\<close> to the matched text, \<open>$`\<close> and
  \<open>$'\<close> to the text in front of and behind the match, and \<open>$n\<close>, \<open>$nn\<close> to the capture of that
  number when there is one (two digits are read when they name a capture, else one); any
  other \<open>$\<close> stands for itself.
\<close>

fun getSubstitution :: "string \<Rightarrow> string \<Rightarrow> string \<Rightarrow> string list \<Rightarrow> string \<Rightarrow> string" where
  "getSubstitution matched pre post captures [] = []"
| "getSubstitution matched pre post captures [c] = [c]"
| "getSubstitution matched pre post captures (c # d # t) =
     (if c \<noteq> CHR ''$'' then c # getSubstitution matched pre post captures (d # t)
      else if d = CHR ''$'' then CHR ''$'' # getSubstitution matched pre post captures t
      else if d = CHR ''&'' then matched @ getSubstitution matched pre post captures t
      else if d = CHR 0x60 then pre @ getSubstitution matched pre post captures t
      else if d = CHR 0x27 then post @ getSubstitution matched pre post captures t
      else if isDigit d then
        (case t of
           [] \<Rightarrow>
             if 1 \<le> digitValue d \<and> digitValue d \<le> length captures
             then captures ! (digitValue d - 1)
             else [c, d]
         | e # t' \<Rightarrow>
             if isDigit e \<and> 10 * digitValue d + digitValue e \<le> length captures then
               (if 1 \<le> 10 * digitValue d + digitValue e
                then captures ! (10 * digitValue d + digitValue e - 1)
                       @ getSubstitution matched pre post captures t'
                else [c, d, e] @ getSubstitution matched pre post captures t')
             else if 1 \<le> digitValue d \<and> digitValue d \<le> length captures
             then captures ! (digitValue d - 1)
                    @ getSubstitution matched pre post captures (e # t')
             else [c, d] @ getSubstitution matched pre post captures (e # t'))
      else c # getSubstitution matched pre post captures (d # t))"

subsection \<open>The pattern of the linked-notes section\<close>

definition linkedHeader :: string where
  "linkedHeader = ''---'' @ newline @ ''## '' @ linkedNotesTitle @ newline"

text \<open>The first occurrence of \<open>needle\<close>: the text in front of it and the text behind it.\<close>

fun find_first :: "string \<Rightarrow> string \<Rightarrow> (string \<times> string) option" where
  "find_first needle [] = (if needle = [] then Some ([], []) else None)"
| "find_first needle (c # s) =
     (if prefix needle (c # s) then Some ([], drop (length needle) (c # s))
      else map_option (\<lambda>(pre, post). (c # pre, post)) (find_first needle s))"

text \<open>
  After the header, \<open>[\s\S]*?\<close> takes as few characters as possible until the second
  group \<open>(\n---|\n*$)\<close> matches: a newline and three dashes, or newlines up to the end of the
  content. The result is the rest of the first group, the second group, and what follows.
\<close>

fun sectionEnd :: "string \<Rightarrow> string \<times> string \<times> string" where
  "sectionEnd [] = ([], [], [])"
| "sectionEnd (c # s) =
     (if prefix [CHR 0x0A, CHR ''-'', CHR ''-'', CHR ''-''] (c # s)
      then ([], [CHR 0x0A, CHR ''-'', CHR ''-'', CHR ''-''], drop 4 (c # s))
      else if list_all (\<lambda>x. x = CHR 0x0A) (c # s) then ([], c # s, [])
      else (case sectionEnd s of (b, g2, rest) \<Rightarrow> (c # b, g2, rest)))"

text \<open>
  \<open>content.match(/(---\n## ... \n[\s\S]*?)(\n---|\n*$)/)\<close>: the text in front of the match, the
  two groups, the text behind the match. The pattern has no \<open>g\<close> flag: the first match counts.
\<close>

definition matchLinkedSection :: "string \<Rightarrow> (string \<times> string \<times> string \<times> string) option" where
  "matchLinkedSection content =
     (case find_first linkedHeader content of
        None \<Rightarrow> None
      | Some (pre, rest) \<Rightarrow>
          (case sectionEnd rest of (b, g2, post) \<Rightarrow> Some (pre, linkedHeader @ b, g2, post)))"

text \<open>
  The common end of both link functions: \<open>content.replace(linkedSectionRegex, `$1\n${links}$2`)\<close>
  when the section is found, and a new section appended at the end otherwise.
\<close>

definition insertIntoLinkedSection :: "string \<Rightarrow> string \<Rightarrow> string" where
  "insertIntoLinkedSection content links =
     (case matchLinkedSection content of
        Some (pre, g1, g2, post) \<Rightarrow>
          pre @ getSubstitution (g1 @ g2) pre post [g1, g2] (''$1'' @ newline @ links @ ''$2'')
            @ post
      | None \<Rightarrow>
          content @ newline @ ''---'' @ newline @ ''## '' @ linkedNotesTitle @ newline @ links
            @ newline)"

subsection \<open>The link lines\<close>

text \<open>
  \<open>`${Math.round(r.relevance * 100)}`\<close>: the nearest integer (halves upwards), in decimal.
  The product is the exact one here; the code rounds the double product, which can fall on
  the other side of a half (at 0.565 the code writes 56). The statements below use that
  the digits hold no dollar sign, and the value at 0.85, which is 85 in the code too.
\<close>

definition intToString :: "int \<Rightarrow> string" where
  "intToString i = (if i < 0 then ''-'' @ toString (nat (- i)) else toString (nat i))"

definition percentOf :: "real \<Rightarrow> string" where
  "percentOf r = intToString \<lfloor>r * 100 + 1 / 2\<rfloor>"

definition reasonLine :: "string \<Rightarrow> string" where
  "reasonLine r = (if r \<noteq> [] then newline @ ''  '' @ arrow @ '' '' @ r else [])"

text \<open>\<open>pathParts[pathParts.length - 1].replace(/\.md$/, "")\<close>.\<close>

definition linkNameOf :: "string \<Rightarrow> string" where
  "linkNameOf p =
     (let fileName = fileNameOf p
      in if drop (length fileName - 3) fileName = ''.md''
         then take (length fileName - 3) fileName else fileName)"

text \<open>The link \<open>`[[${name}]]`\<close> to the note of that name.\<close>

definition wikiLink :: "string \<Rightarrow> string" where
  "wikiLink name = ''[['' @ name @ '']]''"

definition relatedLink :: "RelatedNote \<Rightarrow> string" where
  "relatedLink r =
     ''- '' @ wikiLink (linkNameOf (path (the_note r))) @ '' ('' @ percentOf (relevance r) @ ''%)''
       @ reasonLine (reason r)"

definition backLink :: "tfile \<Rightarrow> RelatedNote \<Rightarrow> string" where
  "backLink newNote related =
     ''- '' @ wikiLink (basename newNote) @ '' ('' @ percentOf (relevance related) @ ''%)''
       @ reasonLine (reason related)"

subsection \<open>\<open>addZKRelatedLinks\<close> and \<open>addBacklinksToZettels\<close>\<close>

text \<open>
  \<open>addZKRelatedLinks\<close> reads the file it is given (a read of a missing file rejects),
  inserts one line per related note and writes the file.
\<close>

definition addZKRelatedLinks :: "vault \<Rightarrow> tfile \<Rightarrow> RelatedNote list \<Rightarrow> js_error + vault" where
  "addZKRelatedLinks v file relatedNotes =
     (if length relatedNotes = 0 then Inr v
      else
        (case v (tf_path file) of
           None \<Rightarrow> Inl FileNotFound
         | Some content \<Rightarrow>
             Inr (v(tf_path file \<mapsto>
                    insertIntoLinkedSection content (join newline (map relatedLink relatedNotes))))))"

text \<open>
  One round of the loop of \<open>addBacklinksToZettels\<close>: a related note whose path is not a file
  is skipped, and so is one whose content already contains the link to the new note.
\<close>

definition addBacklink :: "tfile \<Rightarrow> vault \<Rightarrow> RelatedNote \<Rightarrow> vault" where
  "addBacklink newNote v related =
     (case v (path (the_note related)) of
        None \<Rightarrow> v
      | Some content \<Rightarrow>
          if str_includes content (wikiLink (basename newNote)) then v
          else v(path (the_note related) \<mapsto>
                   insertIntoLinkedSection content (backLink newNote related)))"

definition addBacklinksToZettels :: "vault \<Rightarrow> tfile \<Rightarrow> RelatedNote list \<Rightarrow> vault" where
  "addBacklinksToZettels v newNote relatedNotes = foldl (addBacklink newNote) v relatedNotes"

text \<open>The document at path \<open>p\<close> exists and contains the link to \<open>name\<close>.\<close>

definition linksTo :: "vault \<Rightarrow> string \<Rightarrow> string \<Rightarrow> bool" where
  "linksTo v p name = (case v p of Some content \<Rightarrow> str_includes content (wikiLink name) | None \<Rightarrow> False)"

text \<open>
  Step 4 of the create path of \<open>createZKNotes\<close>, for the file just created and the related
  Zettel notes found for it: both link steps, when there is a related note.
\<close>

definition linkCreatedNote :: "vault \<Rightarrow> tfile \<Rightarrow> RelatedNote list \<Rightarrow> js_error + vault" where
  "linkCreatedNote v newFile relatedZettels =
     (if length relatedZettels > 0 then
        (case addZKRelatedLinks v newFile relatedZettels of
           Inl e \<Rightarrow> Inl e
         | Inr v1 \<Rightarrow> Inr (addBacklinksToZettels v1 newFile relatedZettels))
      else Inr v)"

subsection \<open>The content of a new note\<close>

text \<open>
  The file that \<open>createZKNotes\<close> creates for a candidate: its name is made of the folder,
  the identifier and the sanitized title, and its content ends with the linked-notes
  section holding the link to the source note. \<open>created\<close> is \<open>new Date().toISOString()\<close>.
\<close>

definition zkFile :: "zk_settings \<Rightarrow> string \<Rightarrow> string \<Rightarrow> tfile" where
  "zkFile settings zkId sanitizedTitle =
     \<lparr> tf_path = zettelFolder settings @ ''/'' @ zkId @ '' '' @ sanitizedTitle @ ''.md'',
       basename = zkId @ '' '' @ sanitizedTitle \<rparr>"

definition zkNoteContent :: "string \<Rightarrow> string \<Rightarrow> ZKCandidate \<Rightarrow> string" where
  "zkNoteContent sourceBasename created candidate =
     ''---'' @ newline
     @ ''type: zettel'' @ newline
     @ ''source: \"[['' @ sourceBasename @ '']]\"'' @ newline
     @ ''keywords: ['' @ join '', '' (zk_keywords candidate) @ '']'' @ newline
     @ ''created: '' @ created @ newline
     @ ''---'' @ newline
     @ newline
     @ ''# '' @ zk_title candidate @ newline
     @ newline
     @ ''## '' @ coreIdeaTitle @ newline
     @ body candidate @ newline
     @ newline
     @ ''## '' @ whyImportantTitle @ newline
     @ (case importance candidate of Some i \<Rightarrow> i | None \<Rightarrow> []) @ newline
     @ newline
     @ ''## '' @ contextTitle @ newline
     @ ''- **'' @ originalLabel @ ''**: [['' @ sourceBasename @ '']]'' @ newline
     @ ''- **'' @ relatedConceptsLabel @ ''**: ''
     @ (case relatedConcepts candidate of Some cs \<Rightarrow> join '', '' cs | None \<Rightarrow> []) @ newline
     @ newline
     @ ''---'' @ newline
     @ ''## '' @ linkedNotesTitle @ newline
     @ ''- [['' @ sourceBasename @ '']] ('' @ originalLabel @ '')'' @ newline"

section \<open>Concrete inputs used below\<close>

definition sample_project_reply :: response where
  "sample_project_reply =
     Parsed (JObj [(''targetType'', JStr ''inbox''), (''title'', JStr ''Sensors'')])"

definition sample_split_reply :: response where
  "sample_split_reply =
     Parsed (JArr [JObj [(''title'', JStr ''A''), (''targetType'', JStr ''archive'')],
                   JObj [(''title'', JStr ''B''), (''targetType'', JNum 3)],
                   JStr ''C''])"

definition sample_related_reply :: response where
  "sample_related_reply =
     Parsed (JArr
       [JObj [(''index'', JNum 0), (''relevance'', JNum (6 / 10))],
        JObj [(''index'', JStr ''1''), (''relevance'', JNum (9 / 10))],
        JObj [(''index'', JNum 2), (''relevance'', JNum (4 / 10))],
        JObj [(''index'', JNum 3), (''relevance'', JNum (95 / 100)), (''reason'', JStr ''same idea'')],
        JObj [(''index'', JNum 4), (''relevance'', JBool True)],
        JObj [(''index'', JNum 5), (''relevance'', JNum (7 / 10))],
        JObj [(''index'', JNum 6), (''relevance'', JNum (5 / 10))],
        JObj [(''index'', JNum 7), (''relevance'', JNum (8 / 10))],
        JObj [(''index'', JNum 8), (''relevance'', JNum (55 / 100))],
        JNum 3])"


text \<open>A lower-casing of the ASCII letters, to run the prefilter on ASCII keywords.\<close>

definition asciiLower :: "string \<Rightarrow> string" where
  "asciiLower s =
     map (\<lambda>c. case map_of (zip ''ABCDEFGHIJKLMNOPQRSTUVWXYZ'' ''abcdefghijklmnopqrstuvwxyz'') c of
                 Some l \<Rightarrow> l
               | None \<Rightarrow> c) s"

definition sample_file_a :: md_file where
  "sample_file_a =
     \<lparr> file_path = ''notes/a.md'', file_basename = ''a'',
       file_frontmatter = Some \<lparr> fm_title = Some ''Alpha'',
         fm_keywords = Some (KeywordList [''Sensor'', ''IoT'']), fm_project = None,
         fm_type = Some ''zettel'' \<rparr> \<rparr>"

definition sample_file_b :: md_file where
  "sample_file_b =
     \<lparr> file_path = ''notes/b.md'', file_basename = ''b'',
       file_frontmatter = Some \<lparr> fm_title = None,
         fm_keywords = Some (KeywordValue ''sensor network''), fm_project = None,
         fm_type = Some ''zettel'' \<rparr> \<rparr>"

definition sample_file_c :: md_file where
  "sample_file_c =
     \<lparr> file_path = ''notes/c.md'', file_basename = ''c'',
       file_frontmatter = Some \<lparr> fm_title = None,
         fm_keywords = Some (KeywordList [''cooking'']), fm_project = None,
         fm_type = None \<rparr> \<rparr>"

definition sample_file_d :: md_file where
  "sample_file_d =
     \<lparr> file_path = ''notes/d.md'', file_basename = ''d'',
       file_frontmatter = Some \<lparr> fm_title = None,
         fm_keywords = Some (KeywordList [''Sensors'', ''sensor fusion'']), fm_project = None,
         fm_type = Some ''zettel'' \<rparr> \<rparr>"

definition sample_index :: note_index where
  "sample_index = buildIndex [sample_file_a, sample_file_b, sample_file_c]"

definition sample_index4 :: note_index where
  "sample_index4 = buildIndex [sample_file_a, sample_file_b, sample_file_c, sample_file_d]"

definition sample_candidate_b :: candidate where
  "sample_candidate_b =
     \<lparr> the_note = \<lparr> path = ''notes/b.md'', title = ''b'', note_keywords = [''sensor network''],
                     project = None, noteType = Some ''zettel'' \<rparr>,
       matchedKeywords = [''sensor network''] \<rparr>"

text \<open>A classifier that answers every query with the index 7.\<close>

definition sample_gateway :: gateway where
  "sample_gateway newTitle newKeywords candidates =
     Inr [\<lparr> index = 7, ai_relevance = 9 / 10, ai_reason = Some ''related'', ai_type = None \<rparr>]"

definition sample_zettel :: "string \<Rightarrow> string \<times> NoteIndex" where
  "sample_zettel p =
     (p, \<lparr> path = p, title = ''t'', note_keywords = [], project = None,
           noteType = Some ''zettel'' \<rparr>)"

definition sample_dated_index :: note_index where
  "sample_dated_index =
     map sample_zettel
       [''10 Zettelkasten/20260102-001 A.md'', ''10 Zettelkasten/20260102-003 B.md'',
        ''10 Zettelkasten/20260102-002 C.md'', ''10 Zettelkasten/20260102-005 D.md'',
        ''10 Zettelkasten/20260102-004 E.md'']"

text \<open>
  The index of a vault in which the notes \<open>1 Alpha\<close> and \<open>2 Beta\<close> were created under the
  luhmann scheme and \<open>1 Alpha\<close> was deleted afterwards.
\<close>

definition sample_index_after_delete :: note_index where
  "sample_index_after_delete = [sample_zettel ''10 Zettelkasten/2 Beta.md'']"

definition sample_zk_candidate :: ZKCandidate where
  "sample_zk_candidate =
     \<lparr> zk_title = ''Sensor fusion'', body = ''Combine several sensors.'',
       zk_keywords = [''sensor''], importance = None, relatedConcepts = None \<rparr>"

definition sample_similar :: "real \<Rightarrow> RelatedNote" where
  "sample_similar r =
     \<lparr> the_note = snd (sample_zettel ''10 Zettelkasten/20260102-001 Old note.md''),
       matchedKeywords = [''sensor''], relevance = r, reason = ''same topic'',
       connectionType = [] \<rparr>"

text \<open>
  A vault with an older Zettel note \<open>20260102-001 Old note\<close>, as \<open>createZKNotes\<close> leaves one
  (its content ends with the linked-notes section), and the note \<open>20260102-002 Save $1 a day\<close>
  just created from a candidate of that title.
\<close>

definition sample_old_path :: string where
  "sample_old_path = ''10 Zettelkasten/20260102-001 Old note.md''"

definition sample_old_section :: string where
  "sample_old_section = linkedHeader @ ''- [[Source]] ('' @ originalLabel @ '')''"

definition sample_old_front :: string where
  "sample_old_front =
     ''---'' @ newline @ ''type: zettel'' @ newline @ ''---'' @ newline @ newline
     @ ''# Old note'' @ newline @ newline"

definition sample_old_content :: string where
  "sample_old_content = sample_old_front @ sample_old_section @ newline"

definition sample_dollar_candidate :: ZKCandidate where
  "sample_dollar_candidate =
     \<lparr> zk_title = ''Save $1 a day'', body = ''Small savings add up.'',
       zk_keywords = [''saving''], importance = None, relatedConcepts = None \<rparr>"

definition sample_new_file :: tfile where
  "sample_new_file = zkFile DEFAULT_SETTINGS ''20260102-002'' ''Save $1 a day''"

definition sample_new_content :: string where
  "sample_new_content = zkNoteContent ''Source'' ''2026-01-02T09:00:00.000Z'' sample_dollar_candidate"

definition sample_vault :: vault where
  "sample_vault =
     [sample_old_path \<mapsto> sample_old_content, tf_path sample_new_file \<mapsto> sample_new_content]"

definition sample_related :: RelatedNote where
  "sample_related = sample_similar (85 / 100)"

text \<open>The content of the older note after the backlink step, and after a second run of it.\<close>

definition sample_old_content_linked :: string where
  "sample_old_content_linked =
     sample_old_front @ sample_old_section @ newline
     @ ''- [[20260102-002 Save '' @ sample_old_section @ '' a day]] (85%)'' @ newline
     @ ''  '' @ arrow @ '' same topic'' @ newline"

definition sample_old_content_twice :: string where
  "sample_old_content_twice =
     butlast sample_old_content_linked @ newline
     @ ''- [[20260102-002 Save '' @ drop (length sample_old_front) (butlast sample_old_content_linked)
     @ '' a day]] (85%)'' @ newline
     @ ''  '' @ arrow @ '' same topic'' @ newline"

text \<open>The content of the new note after \<open>addZKRelatedLinks\<close>.\<close>

definition sample_new_content_linked :: string where
  "sample_new_content_linked =
     sample_new_content @ ''- [[20260102-001 Old note]] (85%)'' @ newline
     @ ''  '' @ arrow @ '' same topic'' @ newline"

text \<open>An index with one Zettel note created under the timestamp scheme.\<close>

definition sample_index_timestamp :: note_index where
  "sample_index_timestamp = [sample_zettel ''10 Zettelkasten/1767312000000 Gamma.md'']"

section \<open>Properties of \<open>toLuhmannId\<close>\<close>

lemma luhmann_loop_append:
  "luhmann_loop r l res = res @ luhmann_loop r l []"
proof (induction "nat r" arbitrary: r l res rule: less_induct)
  case less
  show ?case
  proof (cases "r > 0")
    case False
    then show ?thesis by (simp add: luhmann_loop.simps)
  next
    case pos: True
    have d9: "nat ((r - 1) div 9) < nat r" using pos by linarith
    have d26: "nat ((r - 1) div 26) < nat r" using pos by linarith
    show ?thesis
    proof (cases "l mod 2 = 0")
      case True
      show ?thesis
        using pos True less [OF d9, of "l + 1" "res @ [toString (nat ((r - 1) mod 9 + 1))]"]
          less [OF d9, of "l + 1" "[toString (nat ((r - 1) mod 9 + 1))]"]
        by (simp add: luhmann_loop.simps [of r])
    next
      case False
      show ?thesis
        using pos False less [OF d26, of "l + 1" "res @ [fromCharCode (nat (97 + (r - 1) mod 26))]"]
          less [OF d26, of "l + 1" "[fromCharCode (nat (97 + (r - 1) mod 26))]"]
        by (simp add: luhmann_loop.simps [of r])
    qed
  qed
qed

lemma toString_digit: "n < 10 \<Longrightarrow> toString n = [digit_char n]"
  by (simp add: toString.simps)

lemma digit_char_inj: "a < 10 \<Longrightarrow> b < 10 \<Longrightarrow> digit_char a = digit_char b \<Longrightarrow> a = b"
proof -
  have d: "distinct ''0123456789''" by simp
  assume "a < 10" "b < 10" "digit_char a = digit_char b"
  with nth_eq_iff_index_eq [OF d, of a b] show "a = b" by (simp add: digit_char_def)
qed

lemma fromCharCode_inj:
  "a < 128 \<Longrightarrow> b < 128 \<Longrightarrow> fromCharCode a = fromCharCode b \<Longrightarrow> a = b"
  unfolding fromCharCode_def by (simp add: char_of_eq_iff take_bit_eq_mod)

lemma luhmann_loop_step_digit:
  "r > 0 \<Longrightarrow> l mod 2 = 0 \<Longrightarrow>
   luhmann_loop r l [] = [digit_char (nat ((r - 1) mod 9 + 1))] # luhmann_loop ((r - 1) div 9) (l + 1) []"
  using luhmann_loop_append [of "(r - 1) div 9" "l + 1" "[toString (nat ((r - 1) mod 9 + 1))]"]
  by (simp add: luhmann_loop.simps [of r] toString_digit nat_less_iff)

lemma luhmann_loop_step_letter:
  "r > 0 \<Longrightarrow> l mod 2 \<noteq> 0 \<Longrightarrow>
   luhmann_loop r l [] = fromCharCode (nat (97 + (r - 1) mod 26)) # luhmann_loop ((r - 1) div 26) (l + 1) []"
  using luhmann_loop_append [of "(r - 1) div 26" "l + 1" "[fromCharCode (nat (97 + (r - 1) mod 26))]"]
  by (simp add: luhmann_loop.simps [of r])

lemma luhmann_loop_stop: "r \<le> 0 \<Longrightarrow> luhmann_loop r l [] = []"
  by (simp add: luhmann_loop.simps)

lemma luhmann_loop_nonempty: "r > 0 \<Longrightarrow> luhmann_loop r l [] \<noteq> []"
  by (cases "l mod 2 = 0") (simp_all add: luhmann_loop_step_digit luhmann_loop_step_letter)

lemma luhmann_loop_inj:
  "0 \<le> n \<Longrightarrow> 0 \<le> m \<Longrightarrow> luhmann_loop n l [] = luhmann_loop m l [] \<Longrightarrow> n = m"
proof (induction "nat n" arbitrary: n m l rule: less_induct)
  case less
  show ?case
  proof (cases "n > 0")
    case False
    with less.prems have "n = 0" by simp
    with less.prems(3) luhmann_loop_nonempty [of m l] less.prems(2) show ?thesis
      by (cases "m > 0") (simp_all add: luhmann_loop_stop)
  next
    case npos: True
    have mpos: "m > 0"
    proof (rule ccontr)
      assume "\<not> m > 0"
      then have "luhmann_loop m l [] = []" by (simp add: luhmann_loop_stop)
      with less.prems(3) luhmann_loop_nonempty [OF npos, of l] show False by simp
    qed
    show ?thesis
    proof (cases "l mod 2 = 0")
      case True
      from less.prems(3) have
        h: "digit_char (nat ((n - 1) mod 9 + 1)) = digit_char (nat ((m - 1) mod 9 + 1))"
        and t: "luhmann_loop ((n - 1) div 9) (l + 1) [] = luhmann_loop ((m - 1) div 9) (l + 1) []"
        by (simp_all add: luhmann_loop_step_digit [OF npos True] luhmann_loop_step_digit [OF mpos True])
      have "nat ((n - 1) mod 9 + 1) = nat ((m - 1) mod 9 + 1)"
        by (rule digit_char_inj [OF _ _ h]) (simp_all add: nat_less_iff)
      then have md: "(n - 1) mod 9 = (m - 1) mod 9" by simp
      have "nat ((n - 1) div 9) < nat n" using npos by linarith
      from less.hyps [OF this _ _ t] npos mpos have dv: "(n - 1) div 9 = (m - 1) div 9"
        by simp
      have "n - 1 = m - 1"
        using md dv by (metis div_mult_mod_eq)
      then show ?thesis by simp
    next
      case False
      from less.prems(3) have
        h: "fromCharCode (nat (97 + (n - 1) mod 26)) = fromCharCode (nat (97 + (m - 1) mod 26))"
        and t: "luhmann_loop ((n - 1) div 26) (l + 1) [] = luhmann_loop ((m - 1) div 26) (l + 1) []"
        by (simp_all add: luhmann_loop_step_letter [OF npos False] luhmann_loop_step_letter [OF mpos False])
      have "nat (97 + (n - 1) mod 26) = nat (97 + (m - 1) mod 26)"
        by (rule fromCharCode_inj [OF _ _ h]) (simp_all add: nat_less_iff)
      then have md: "(n - 1) mod 26 = (m - 1) mod 26" by simp
      have "nat ((n - 1) div 26) < nat n" using npos by linarith
      from less.hyps [OF this _ _ t] npos mpos have dv: "(n - 1) div 26 = (m - 1) div 26"
        by simp
      have "n - 1 = m - 1"
        using md dv by (metis div_mult_mod_eq)
      then show ?thesis by simp
    qed
  qed
qed

lemma luhmann_loop_singletons:
  "\<forall>s \<in> set (luhmann_loop n l []). length s = 1"
proof (induction "nat n" arbitrary: n l rule: less_induct)
  case less
  show ?case
  proof (cases "n > 0")
    case False
    then show ?thesis by (simp add: luhmann_loop_stop)
  next
    case npos: True
    have d9: "nat ((n - 1) div 9) < nat n" and d26: "nat ((n - 1) div 26) < nat n"
      using npos by linarith+
    show ?thesis
      using less.hyps [OF d9, of "l + 1"] less.hyps [OF d26, of "l + 1"] npos
      by (cases "l mod 2 = 0")
        (simp_all add: luhmann_loop_step_digit luhmann_loop_step_letter fromCharCode_def)
  qed
qed

lemma concat_singletons_inj:
  "\<forall>s \<in> set xs. length s = 1 \<Longrightarrow> \<forall>s \<in> set ys. length s = 1 \<Longrightarrow>
   concat xs = concat ys \<Longrightarrow> xs = ys"
proof (induction xs arbitrary: ys)
  case Nil
  then show ?case by (cases ys) (auto simp: length_Suc_conv)
next
  case (Cons x xs)
  show ?case
  proof (cases ys)
    case Nil
    with Cons.prems show ?thesis by (auto simp: length_Suc_conv)
  next
    case (Cons y ys')
    from Cons.prems(1) obtain a where x: "x = [a]" by (auto simp: length_Suc_conv)
    from Cons.prems(2) Cons obtain b where y: "y = [b]" by (auto simp: length_Suc_conv)
    from Cons.prems(3) x y Cons have "a = b" "concat xs = concat ys'" by simp_all
    with Cons.IH [of ys'] Cons.prems(1,2) Cons x y show ?thesis by simp
  qed
qed

lemma luhmann_emit_eq: "luhmann_loop r l [] = luhmann_emit r l"
proof (induction "nat r" arbitrary: r l rule: less_induct)
  case less
  show ?case
  proof (cases "r > 0")
    case False
    then show ?thesis by (simp add: luhmann_loop_stop luhmann_emit.simps)
  next
    case pos: True
    have d9: "nat ((r - 1) div 9) < nat r" and d26: "nat ((r - 1) div 26) < nat r"
      using pos by linarith+
    show ?thesis
      using less.hyps [OF d9, of "l + 1"] less.hyps [OF d26, of "l + 1"] pos
      by (cases "l mod 2 = 0")
        (simp_all add: luhmann_loop_step_digit luhmann_loop_step_letter luhmann_emit.simps [of r]
          fromCharCode_def even_iff_mod_2_eq_zero)
  qed
qed

lemma toLuhmannId_inj:
  assumes "1 \<le> n" "1 \<le> m" "toLuhmannId n = toLuhmannId m"
  shows "n = m"
proof -
  from assms have "concat (rev (luhmann_loop n 0 [])) = concat (rev (luhmann_loop m 0 []))"
    by (simp add: toLuhmannId_def)
  then have "rev (luhmann_loop n 0 []) = rev (luhmann_loop m 0 [])"
    using luhmann_loop_singletons [of n 0] luhmann_loop_singletons [of m 0]
    by (intro concat_singletons_inj) simp_all
  then have "luhmann_loop n 0 [] = luhmann_loop m 0 []" by simp
  with luhmann_loop_inj [of n m 0] assms show ?thesis by simp
qed

text \<open>
  Claim C2. \<open>toLuhmannId\<close> is injective on the positive counters: two different counters
  \<open>n, m\<close> from 1 to \<open>2 ^ 53\<close>, the range in which the counter of the allocator lives and
  in which the double arithmetic of the code is exact, never get the same identifier. Being
  a function of its argument alone it gives the same string whenever it is evaluated on the
  same counter; on that range it computes the encoding as the specification words it
  (\<open>Luhmann\<close>), and a counter \<open>\<le> 0\<close> gives \<open>"1"\<close>.
\<close>

theorem toLuhmannId_injective:
  "(1 \<le> n \<and> n \<le> 2 ^ 53 \<and> 1 \<le> m \<and> m \<le> 2 ^ 53 \<and> n \<noteq> m
      \<longrightarrow> toLuhmannId n \<noteq> toLuhmannId m)
   \<and> (n = m \<longrightarrow> toLuhmannId n = toLuhmannId m)
   \<and> (n \<le> 2 ^ 53 \<longrightarrow> toLuhmannId n = Luhmann n)
   \<and> (n \<le> 0 \<longrightarrow> toLuhmannId n = ''1'')"
proof (intro conjI impI)
  assume "1 \<le> n \<and> n \<le> 2 ^ 53 \<and> 1 \<le> m \<and> m \<le> 2 ^ 53 \<and> n \<noteq> m"
  then show "toLuhmannId n \<noteq> toLuhmannId m" using toLuhmannId_inj [of n m] by blast
next
  assume "n = m"
  then show "toLuhmannId n = toLuhmannId m" by simp
next
  assume "n \<le> 2 ^ 53"
  show "toLuhmannId n = Luhmann n"
    by (simp add: toLuhmannId_def Luhmann_def luhmann_emit_eq)
next
  assume "n \<le> 0"
  then show "toLuhmannId n = ''1''" by (simp add: toLuhmannId_def)
qed

theorem toLuhmannId_injective_witness:
  "(1::int) \<le> 9 \<and> (9::int) \<le> 2 ^ 53 \<and> (1::int) \<le> 10 \<and> (10::int) \<le> 2 ^ 53
   \<and> (9::int) \<noteq> 10
   \<and> toLuhmannId 9 = ''9'' \<and> toLuhmannId 10 = ''a1'' \<and> toLuhmannId 9 \<noteq> toLuhmannId 10
   \<and> toLuhmannId 9 = Luhmann 9
   \<and> (0::int) \<le> 0 \<and> toLuhmannId 0 = ''1''"
proof -
  have v9: "toLuhmannId 9 = ''9''" by code_simp
  have v10: "toLuhmannId 10 = ''a1''" by code_simp
  have b9: "(9::int) \<le> 2 ^ 53" and b10: "(10::int) \<le> 2 ^ 53" by simp_all
  have h: "(1::int) \<le> 9 \<and> (9::int) \<le> 2 ^ 53 \<and> (1::int) \<le> 10 \<and> (10::int) \<le> 2 ^ 53
           \<and> (9::int) \<noteq> 10"
    using b9 b10 by simp
  from toLuhmannId_injective [of 9 10, THEN conjunct1] h
  have ne: "toLuhmannId 9 \<noteq> toLuhmannId 10" by (rule mp)
  from toLuhmannId_injective [of 9 10, THEN conjunct2, THEN conjunct2, THEN conjunct1] b9
  have sp: "toLuhmannId 9 = Luhmann 9" by (rule mp)
  have h0: "(0::int) \<le> 0" by simp
  from toLuhmannId_injective [of 0 0, THEN conjunct2, THEN conjunct2, THEN conjunct2] h0
  have z: "toLuhmannId 0 = ''1''" by (rule mp)
  from b9 b10 v9 v10 ne sp z show ?thesis by (intro conjI) simp_all
qed

section \<open>The target type of a classification\<close>

lemma validateTargetType_valid: "validateTargetType v \<in> set validTypes"
  by (cases v rule: validateTargetType.cases) (simp_all add: validTypes_def)

lemma validateTargetType_default:
  "v \<notin> {Some (JStr ''project''), Some (JStr ''library''), Some (JStr ''archive'')}
   \<Longrightarrow> validateTargetType v = ''library''"
  by (cases v rule: validateTargetType.cases) (auto simp: validTypes_def)

lemma splitItem_targetType:
  "splitItem item = Inr s \<Longrightarrow> ss_targetType s \<in> set validTypes"
  using validateTargetType_valid [of "field item ''targetType''"] by (cases item) auto

lemma map_throwing_all:
  "map_throwing f xs = Inr ys \<Longrightarrow> \<forall>y \<in> set ys. \<exists>x \<in> set xs. f x = Inr y"
  by (induction xs arbitrary: ys) (auto split: sum.splits)

lemma filter_throwing_eq:
  "filter_throwing p xs = Inr ys \<Longrightarrow> ys = filter (\<lambda>x. p x = Inr True) xs"
  by (induction xs arbitrary: ys) (auto split: sum.splits)

lemma parseSplitResponse_targetType:
  assumes "s \<in> set (parseSplitResponse r)"
  shows "ss_targetType s \<in> set validTypes"
proof -
  from assms obtain items where r: "r = Parsed (JArr items)"
    by (auto simp: parseSplitResponse_def split: response.splits json.splits)
  with assms obtain sections where
    m: "map_throwing splitItem items = Inr sections" and s: "s \<in> set sections"
    by (cases "map_throwing splitItem items") (simp_all add: parseSplitResponse_def)
  from map_throwing_all [OF m] s obtain item where "splitItem item = Inr s" by blast
  then show ?thesis by (rule splitItem_targetType)
qed

lemma parseProjectResponse_targetType:
  "parseProjectResponse r = Inr c \<Longrightarrow> cr_targetType c \<in> set validTypes"
  using validateTargetType_valid [of "field (case r of Parsed p \<Rightarrow> p) ''targetType''"]
  by (auto simp: parseProjectResponse_def validTypes_def split: response.splits json.splits)

text \<open>
  Claim C10. Every \<open>ClassifyResult\<close> that \<open>classifyProject\<close> returns and every
  \<open>SplitSection\<close> that \<open>splitContent\<close> returns has a target type that is one of
  \<open>"project"\<close>, \<open>"library"\<close>, \<open>"archive"\<close>: \<open>validateTargetType\<close> always answers with
  one of the three, and answers \<open>"library"\<close> for whatever is not one of these three strings.
\<close>

theorem targetType_always_valid:
  "(classifyProject reply = Inr c \<longrightarrow> cr_targetType c \<in> {''project'', ''library'', ''archive''})
   \<and> (splitContent reply' = Inr sections \<and> s \<in> set sections
        \<longrightarrow> ss_targetType s \<in> {''project'', ''library'', ''archive''})
   \<and> validateTargetType v \<in> {''project'', ''library'', ''archive''}
   \<and> (v \<notin> {Some (JStr ''project''), Some (JStr ''library''), Some (JStr ''archive'')}
        \<longrightarrow> validateTargetType v = ''library'')"
proof (intro conjI impI)
  assume "classifyProject reply = Inr c"
  then obtain r where "parseProjectResponse r = Inr c"
    by (auto simp: classifyProject_def split: sum.splits)
  from parseProjectResponse_targetType [OF this]
  show "cr_targetType c \<in> {''project'', ''library'', ''archive''}"
    by (simp add: validTypes_def)
next
  assume "splitContent reply' = Inr sections \<and> s \<in> set sections"
  then obtain r where "s \<in> set (parseSplitResponse r)"
    by (auto simp: splitContent_def split: sum.splits)
  from parseSplitResponse_targetType [OF this]
  show "ss_targetType s \<in> {''project'', ''library'', ''archive''}"
    by (simp add: validTypes_def)
next
  from validateTargetType_valid [of v]
  show "validateTargetType v \<in> {''project'', ''library'', ''archive''}"
    by (simp add: validTypes_def)
next
  assume "v \<notin> {Some (JStr ''project''), Some (JStr ''library''), Some (JStr ''archive'')}"
  then show "validateTargetType v = ''library''" by (rule validateTargetType_default)
qed

theorem targetType_always_valid_witness:
  "classifyProject (Inr sample_project_reply)
     = Inr \<lparr> cr_targetType = ''library'', cr_projectName = None, cr_isNewProject = JBool False,
             cr_title = JStr ''Sensors'', cr_summary = JStr [], cr_nextAction = JNull \<rparr>
   \<and> cr_targetType \<lparr> cr_targetType = ''library'', cr_projectName = None,
             cr_isNewProject = JBool False, cr_title = JStr ''Sensors'', cr_summary = JStr [],
             cr_nextAction = JNull \<rparr> \<in> {''project'', ''library'', ''archive''}
   \<and> map ss_targetType (parseSplitResponse sample_split_reply)
       = [''archive'', ''library'', ''library'']
   \<and> parseSplitResponse sample_split_reply ! 1 \<in> set (parseSplitResponse sample_split_reply)
   \<and> ss_targetType (parseSplitResponse sample_split_reply ! 1)
       \<in> {''project'', ''library'', ''archive''}
   \<and> Some (JStr ''inbox'') \<notin> {Some (JStr ''project''), Some (JStr ''library''), Some (JStr ''archive'')}
   \<and> validateTargetType (Some (JStr ''inbox'')) = ''library''"
proof -
  let ?c = "\<lparr> cr_targetType = ''library'', cr_projectName = None, cr_isNewProject = JBool False,
             cr_title = JStr ''Sensors'', cr_summary = JStr [], cr_nextAction = JNull \<rparr>"
  have h1: "classifyProject (Inr sample_project_reply) = Inr ?c"
    by (simp add: classifyProject_def sample_project_reply_def parseProjectResponse_def
        validTypes_def)
  have h2: "map ss_targetType (parseSplitResponse sample_split_reply)
       = [''archive'', ''library'', ''library'']"
    by (simp add: sample_split_reply_def parseSplitResponse_def validTypes_def)
  have h3: "splitContent (Inr sample_split_reply) = Inr (parseSplitResponse sample_split_reply)"
    by (simp add: splitContent_def)
  have h4: "Some (JStr ''inbox'')
      \<notin> {Some (JStr ''project''), Some (JStr ''library''), Some (JStr ''archive'')}"
    by simp
  have c1: "cr_targetType ?c \<in> {''project'', ''library'', ''archive''}"
    using targetType_always_valid
      [where reply = "Inr sample_project_reply" and c = ?c, THEN conjunct1] h1
    by (rule mp)
  have "length (map ss_targetType (parseSplitResponse sample_split_reply)) = 3"
    by (simp only: h2) simp
  then have m: "parseSplitResponse sample_split_reply ! 1
      \<in> set (parseSplitResponse sample_split_reply)" by simp
  have c2: "ss_targetType s \<in> {''project'', ''library'', ''archive''}"
    if "s \<in> set (parseSplitResponse sample_split_reply)" for s
    using targetType_always_valid
      [where reply' = "Inr sample_split_reply"
         and sections = "parseSplitResponse sample_split_reply" and s = s,
       THEN conjunct2, THEN conjunct1] conjI [OF h3 that]
    by (rule mp)
  have c3: "validateTargetType (Some (JStr ''inbox'')) = ''library''"
    using targetType_always_valid
      [where v = "Some (JStr ''inbox'')", THEN conjunct2, THEN conjunct2, THEN conjunct2] h4
    by (rule mp)
  show ?thesis
    using h1 h2 h4 c1 c2 [OF m] c3 m by (intro conjI)
qed


section \<open>The relatedness result of the gateway\<close>

lemma sort_key_desc:
  "sorted_wrt (\<lambda>a b. f a \<ge> f b) (sort_key (\<lambda>x. - f x) xs)" for f :: "'a \<Rightarrow> real"
proof -
  have "sorted (map (\<lambda>x. - f x) (sort_key (\<lambda>x. - f x) xs))" by (rule sorted_sort_key)
  then show ?thesis by (simp add: sorted_map)
qed

lemma relatedItemGuard_True:
  "relatedItemGuard item = Inr True \<Longrightarrow>
   field item ''index'' = Some (JNum (numberOf (field item ''index'')))
   \<and> field item ''relevance'' = Some (JNum (itemRelevance item))"
proof (cases item)
  case (JObj fs)
  assume "relatedItemGuard item = Inr True"
  with JObj have a: "isNumber (map_of fs ''index'')" and b: "isNumber (map_of fs ''relevance'')"
    by simp_all
  from a obtain x where "map_of fs ''index'' = Some (JNum x)"
    by (cases "map_of fs ''index''" rule: isNumber.cases) simp_all
  moreover from b obtain y where "map_of fs ''relevance'' = Some (JNum y)"
    by (cases "map_of fs ''relevance''" rule: isNumber.cases) simp_all
  ultimately show ?thesis using JObj by (simp add: itemRelevance_def)
qed simp_all

text \<open>
  Claim C7. Whatever the classifier replied, the relatedness result that
  \<open>parseRelatedNotesResponse\<close> returns holds only entries of relevance at least 0.5, is in
  descending order of relevance, and has at most 5 entries; every entry comes from an item
  of the reply whose \<open>index\<close> and \<open>relevance\<close> are numbers (the other items are dropped).
\<close>

theorem parseRelatedNotesResponse_filtered_sorted_top5:
  "(\<forall>e \<in> set (parseRelatedNotesResponse r). ai_relevance e \<ge> 1 / 2)
   \<and> sorted_wrt (\<lambda>a b. ai_relevance a \<ge> ai_relevance b) (parseRelatedNotesResponse r)
   \<and> length (parseRelatedNotesResponse r) \<le> 5
   \<and> (\<forall>e \<in> set (parseRelatedNotesResponse r). \<exists>items item.
         r = Parsed (JArr items) \<and> item \<in> set items
         \<and> field item ''index'' = Some (JNum (index e))
         \<and> field item ''relevance'' = Some (JNum (ai_relevance e)))"
proof (cases "\<exists>items guarded. r = Parsed (JArr items) \<and> filter_throwing relatedItemGuard items = Inr guarded")
  case False
  then have "parseRelatedNotesResponse r = []"
    by (auto simp: parseRelatedNotesResponse_def split: response.splits json.splits sum.splits)
  then show ?thesis by simp
next
  case True
  then obtain items guarded where r: "r = Parsed (JArr items)"
    and g: "filter_throwing relatedItemGuard items = Inr guarded" by blast
  define kept where "kept = take 5 (sort_key (\<lambda>item. - itemRelevance item)
                     (filter (\<lambda>item. itemRelevance item \<ge> 1 / 2) guarded))"
  have res: "parseRelatedNotesResponse r = map relatedItem kept"
    using r g by (simp add: parseRelatedNotesResponse_def kept_def)
  have rel: "ai_relevance (relatedItem item) = itemRelevance item" for item
    by (simp add: relatedItem_def)
  have guarded: "guarded = filter (\<lambda>x. relatedItemGuard x = Inr True) items"
    using g by (rule filter_throwing_eq)
  have sub: "set kept \<subseteq> {item \<in> set guarded. itemRelevance item \<ge> 1 / 2}"
    unfolding kept_def using set_take_subset by fastforce
  have s1: "sorted_wrt (\<lambda>a b. itemRelevance a \<ge> itemRelevance b) kept"
    unfolding kept_def by (intro sorted_wrt_take sort_key_desc)
  have c1: "\<forall>e \<in> set (parseRelatedNotesResponse r). ai_relevance e \<ge> 1 / 2"
    using sub by (auto simp: res rel)
  have c2: "sorted_wrt (\<lambda>a b. ai_relevance a \<ge> ai_relevance b) (parseRelatedNotesResponse r)"
    using s1 by (simp add: res sorted_wrt_map rel)
  have c3: "length (parseRelatedNotesResponse r) \<le> 5"
    by (simp add: res kept_def)
  have c4: "\<forall>e \<in> set (parseRelatedNotesResponse r). \<exists>items item.
         r = Parsed (JArr items) \<and> item \<in> set items
         \<and> field item ''index'' = Some (JNum (index e))
         \<and> field item ''relevance'' = Some (JNum (ai_relevance e))"
  proof
    fix e assume "e \<in> set (parseRelatedNotesResponse r)"
    then obtain item where i: "item \<in> set kept" and e: "e = relatedItem item"
      by (auto simp: res)
    from i sub guarded have m: "item \<in> set items" and t: "relatedItemGuard item = Inr True"
      by auto
    from relatedItemGuard_True [OF t] e have
      "field item ''index'' = Some (JNum (index e))"
      "field item ''relevance'' = Some (JNum (ai_relevance e))"
      by (simp_all add: relatedItem_def)
    with m r show "\<exists>items item.
         r = Parsed (JArr items) \<and> item \<in> set items
         \<and> field item ''index'' = Some (JNum (index e))
         \<and> field item ''relevance'' = Some (JNum (ai_relevance e))" by blast
  qed
  from c1 c2 c3 c4 show ?thesis by blast
qed

theorem parseRelatedNotesResponse_filtered_sorted_top5_witness:
  "map (\<lambda>e. (index e, ai_relevance e)) (parseRelatedNotesResponse sample_related_reply)
     = [(3, 95 / 100), (7, 8 / 10), (5, 7 / 10), (0, 6 / 10), (8, 55 / 100)]
   \<and> last (parseRelatedNotesResponse sample_related_reply)
       \<in> set (parseRelatedNotesResponse sample_related_reply)
   \<and> ai_relevance (last (parseRelatedNotesResponse sample_related_reply)) \<ge> 1 / 2
   \<and> sorted_wrt (\<lambda>a b. ai_relevance a \<ge> ai_relevance b)
         (parseRelatedNotesResponse sample_related_reply)
   \<and> length (parseRelatedNotesResponse sample_related_reply) \<le> 5"
proof -
  have v: "map (\<lambda>e. (index e, ai_relevance e)) (parseRelatedNotesResponse sample_related_reply)
     = [(3, 95 / 100), (7, 8 / 10), (5, 7 / 10), (0, 6 / 10), (8, 55 / 100)]"
    by (simp add: sample_related_reply_def parseRelatedNotesResponse_def itemRelevance_def
        relatedItem_def)
  then have "parseRelatedNotesResponse sample_related_reply \<noteq> []" by auto
  then have m: "last (parseRelatedNotesResponse sample_related_reply)
       \<in> set (parseRelatedNotesResponse sample_related_reply)" by (rule last_in_set)
  from v m parseRelatedNotesResponse_filtered_sorted_top5 [of sample_related_reply]
  show ?thesis by blast
qed


section \<open>The keyword prefilter\<close>

lemma collectCandidates_sound:
  "c \<in> set (collectCandidates lc ks excl entries) \<Longrightarrow>
   \<exists>p. (p, the_note c) \<in> set entries \<and> \<not> isExcluded excl p
       \<and> note_keywords (the_note c) \<noteq> []
       \<and> matchedKeywords c = matchKeywords lc ks (note_keywords (the_note c))
       \<and> matchedKeywords c \<noteq> []"
proof (induction entries)
  case Nil
  then show ?case by simp
next
  case (Cons e entries)
  obtain p n where e: "e = (p, n)" by (cases e)
  from Cons.prems e consider
    (hd) "\<not> isExcluded excl p" "note_keywords n \<noteq> []" "matchKeywords lc ks (note_keywords n) \<noteq> []"
         "c = \<lparr> the_note = n, matchedKeywords = matchKeywords lc ks (note_keywords n) \<rparr>"
  | (tl) "c \<in> set (collectCandidates lc ks excl entries)"
    by (auto split: if_splits)
  then show ?case
  proof cases
    case hd
    then show ?thesis using e by auto
  next
    case tl
    from Cons.IH [OF tl] show ?thesis by auto
  qed
qed

lemma matchKeywords_sound:
  "k \<in> set (matchKeywords lc (newSet (map lc kws)) nks) \<Longrightarrow>
   k \<in> set nks \<and> (\<exists>q \<in> set kws. keywordMatches (lc k) (lc q))"
  by (auto simp: matchKeywords_def newSet_def list_ex_iff)

lemma sort_key_length_desc:
  "sorted_wrt (\<lambda>a b. f a \<ge> f b) (sort_key (\<lambda>x. - int (f x)) xs)" for f :: "'a \<Rightarrow> nat"
proof -
  have "sorted (map (\<lambda>x. - int (f x)) (sort_key (\<lambda>x. - int (f x)) xs))"
    by (rule sorted_sort_key)
  then show ?thesis by (simp add: sorted_map)
qed

lemma prefilter_subset:
  "set (prefilter lc kws excl entries)
   \<subseteq> set (collectCandidates lc (newSet (map lc kws)) excl entries)"
  unfolding prefilter_def using set_take_subset by fastforce

lemma prefilter_properties:
  "length (prefilter lc kws excl entries) \<le> 10
   \<and> sorted_wrt (\<lambda>a b. length (matchedKeywords a) \<ge> length (matchedKeywords b))
        (prefilter lc kws excl entries)
   \<and> (\<forall>c \<in> set (prefilter lc kws excl entries).
        note_keywords (the_note c) \<noteq> []
        \<and> matchedKeywords c \<noteq> []
        \<and> (\<forall>k \<in> set (matchedKeywords c).
              k \<in> set (note_keywords (the_note c))
              \<and> (\<exists>q \<in> set kws. keywordMatches (lc k) (lc q)))
        \<and> (\<exists>p. (p, the_note c) \<in> set entries \<and> \<not> isExcluded excl p))"
proof (intro conjI ballI)
  show "length (prefilter lc kws excl entries) \<le> 10" by (simp add: prefilter_def)
  show "sorted_wrt (\<lambda>a b. length (matchedKeywords a) \<ge> length (matchedKeywords b))
        (prefilter lc kws excl entries)"
    unfolding prefilter_def by (intro sorted_wrt_take sort_key_length_desc)
next
  fix c assume "c \<in> set (prefilter lc kws excl entries)"
  with prefilter_subset have "c \<in> set (collectCandidates lc (newSet (map lc kws)) excl entries)"
    by blast
  from collectCandidates_sound [OF this] obtain p where
    p: "(p, the_note c) \<in> set entries" "\<not> isExcluded excl p"
    and nk: "note_keywords (the_note c) \<noteq> []"
    and mk: "matchedKeywords c = matchKeywords lc (newSet (map lc kws)) (note_keywords (the_note c))"
    and ne: "matchedKeywords c \<noteq> []" by blast
  show "note_keywords (the_note c) \<noteq> []" by (rule nk)
  show "matchedKeywords c \<noteq> []" by (rule ne)
  show "\<exists>p. (p, the_note c) \<in> set entries \<and> \<not> isExcluded excl p" using p by blast
  fix k assume "k \<in> set (matchedKeywords c)"
  with mk matchKeywords_sound [of k lc kws "note_keywords (the_note c)"]
  show "k \<in> set (note_keywords (the_note c))" "\<exists>q \<in> set kws. keywordMatches (lc k) (lc q)"
    by simp_all
qed

text \<open>The index is keyed by the path of the note it holds.\<close>

lemma map_set_keyed:
  "\<forall>(p, n) \<in> set m. f n = p \<Longrightarrow> f v = k \<Longrightarrow> \<forall>(p, n) \<in> set (map_set m k v). f n = p"
  by (induction m) (auto split: if_splits)

lemma updateIndex_keyed:
  "\<forall>(p, n) \<in> set idx. path n = p \<Longrightarrow> \<forall>(p, n) \<in> set (updateIndex idx file). path n = p"
  unfolding updateIndex_def by (rule map_set_keyed) (simp_all add: indexNote_def Let_def)

lemma buildIndex_keyed: "\<forall>(p, n) \<in> set (buildIndex files). path n = p"
proof -
  have "\<forall>(p, n) \<in> set idx. path n = p \<Longrightarrow> \<forall>(p, n) \<in> set (foldl updateIndex idx files). path n = p"
    for idx
  proof (induction files arbitrary: idx)
    case Nil
    then show ?case by simp
  next
    case (Cons f files)
    from Cons.IH [OF updateIndex_keyed [OF Cons.prems, of f]] show ?case by simp
  qed
  from this [of "[]"] show ?thesis by (simp add: buildIndex_def)
qed

lemma removeFromIndex_keyed:
  "\<forall>(p, n) \<in> set idx. path n = p \<Longrightarrow> \<forall>(p, n) \<in> set (removeFromIndex idx q). path n = p"
  by (auto simp: removeFromIndex_def map_delete_def)

lemma map_set_subset: "set (map_set m k v) \<subseteq> insert (k, v) (set m)"
  by (induction m) (auto split: if_splits)

lemma getZettelIndex_subset_aux:
  "set (foldl (\<lambda>z (p, n). if noteType n = Some ''zettel'' then map_set z p n else z) acc idx)
   \<subseteq> set acc \<union> {(p, n) \<in> set idx. noteType n = Some ''zettel''}"
proof (induction idx arbitrary: acc)
  case Nil
  then show ?case by simp
next
  case (Cons e idx)
  obtain p n where e: "e = (p, n)" by (cases e)
  show ?case
    using Cons.IH [of "if noteType n = Some ''zettel'' then map_set acc p n else acc"]
      map_set_subset [of acc p n]
    by (auto simp: e split: if_splits)
qed

lemma getZettelIndex_subset:
  "set (getZettelIndex idx) \<subseteq> {(p, n) \<in> set idx. noteType n = Some ''zettel''}"
  using getZettelIndex_subset_aux [of "[]" idx] by (simp add: getZettelIndex_def)

subsection \<open>The sample index\<close>

lemma sample_index_value:
  "sample_index =
     [(''notes/a.md'', \<lparr> path = ''notes/a.md'', title = ''Alpha'', note_keywords = [''Sensor'', ''IoT''],
                     project = None, noteType = Some ''zettel'' \<rparr>),
      (''notes/b.md'', \<lparr> path = ''notes/b.md'', title = ''b'', note_keywords = [''sensor network''],
                     project = None, noteType = Some ''zettel'' \<rparr>),
      (''notes/c.md'', \<lparr> path = ''notes/c.md'', title = ''c'', note_keywords = [''cooking''],
                     project = None, noteType = None \<rparr>)]"
  by (simp add: sample_index_def buildIndex_def updateIndex_def indexNote_def
      sample_file_a_def sample_file_b_def sample_file_c_def)

lemma sample_index4_value:
  "sample_index4 = sample_index @
     [(''notes/d.md'', \<lparr> path = ''notes/d.md'', title = ''d'',
                     note_keywords = [''Sensors'', ''sensor fusion''],
                     project = None, noteType = Some ''zettel'' \<rparr>)]"
  unfolding sample_index_value
  by (simp add: sample_index4_def buildIndex_def updateIndex_def indexNote_def
      sample_file_a_def sample_file_b_def sample_file_c_def sample_file_d_def)

lemma asciiLower_values:
  "asciiLower ''Sensor'' = ''sensor''"
  "asciiLower ''sensor'' = ''sensor''"
  "asciiLower ''IoT'' = ''iot''"
  "asciiLower ''sensor network'' = ''sensor network''"
  "asciiLower ''cooking'' = ''cooking''"
  "asciiLower ''Sensors'' = ''sensors''"
  "asciiLower ''sensor fusion'' = ''sensor fusion''"
  by (simp_all add: asciiLower_def)

text \<open>
  Claim C3. For every list of query keywords and every index, the keyword prefilter (both
  \<open>filterByKeywords\<close> over the whole index and \<open>filterZettelsByKeywords\<close> over its
  Zettel entries) returns at most 10 candidates, in non-increasing order of the number of
  matched keywords. Each candidate's note has stored keywords, at least one of them matched;
  every matched keyword is a stored keyword that equals, contains or is contained in some
  query keyword after lower-casing both; and the candidate comes from an index entry whose
  key is not the excluded path, so that, the index being keyed by the paths of its notes
  (\<open>buildIndex_keyed\<close>, \<open>updateIndex_keyed\<close>, \<open>removeFromIndex_keyed\<close>), the path of the
  candidate's note is not the excluded one. The excluded path is the \<open>excludePath\<close> argument
  when it is given and is not the empty string (the guard \<open>excludePath && ...\<close> of the code;
  the path of a file is never empty).
\<close>

theorem prefilter_contract:
  assumes "res = filterByKeywords toLowerCase idx kws excludePath
           \<or> res = filterZettelsByKeywords toLowerCase kws (getZettelIndex idx) excludePath"
  shows "length res \<le> 10
   \<and> sorted_wrt (\<lambda>a b. length (matchedKeywords a) \<ge> length (matchedKeywords b)) res
   \<and> (\<forall>c \<in> set res.
        note_keywords (the_note c) \<noteq> []
        \<and> matchedKeywords c \<noteq> []
        \<and> (\<forall>k \<in> set (matchedKeywords c).
              k \<in> set (note_keywords (the_note c))
              \<and> (\<exists>q \<in> set kws. keywordMatches (toLowerCase k) (toLowerCase q)))
        \<and> (\<exists>p. (p, the_note c) \<in> set idx \<and> \<not> isExcluded excludePath p)
        \<and> ((\<forall>(p, n) \<in> set idx. path n = p)
              \<longrightarrow> (\<forall>e. excludePath = Some e \<and> e \<noteq> [] \<longrightarrow> path (the_note c) \<noteq> e)))"
proof -
  from assms obtain entries where res: "res = prefilter toLowerCase kws excludePath entries"
    and sub: "set entries \<subseteq> set idx"
    using getZettelIndex_subset [of idx]
    by (auto simp: filterByKeywords_def filterZettelsByKeywords_def)
  note P = prefilter_properties [of toLowerCase kws excludePath entries, folded res]
  have "\<exists>p. (p, the_note c) \<in> set idx \<and> \<not> isExcluded excludePath p" if "c \<in> set res" for c
    using P that sub by blast
  moreover have "\<forall>e. excludePath = Some e \<and> e \<noteq> [] \<longrightarrow> path (the_note c) \<noteq> e"
    if "c \<in> set res" "\<forall>(p, n) \<in> set idx. path n = p" for c
  proof -
    from P that(1) sub obtain p where "(p, the_note c) \<in> set idx" "\<not> isExcluded excludePath p"
      by blast
    with that(2) have "\<not> isExcluded excludePath (path (the_note c))" by auto
    then show ?thesis by (cases excludePath) auto
  qed
  ultimately show ?thesis using P by blast
qed

theorem prefilter_contract_witness:
  "filterByKeywords asciiLower sample_index [''Sensor''] (Some ''notes/a.md'') = [sample_candidate_b]
   \<and> length [sample_candidate_b] \<le> 10
   \<and> sample_candidate_b \<in> set [sample_candidate_b]
   \<and> ''sensor network'' \<in> set (matchedKeywords sample_candidate_b)
   \<and> note_keywords (the_note sample_candidate_b) \<noteq> []
   \<and> ''sensor network'' \<in> set (note_keywords (the_note sample_candidate_b))
   \<and> (\<exists>q \<in> set [''Sensor'']. keywordMatches (asciiLower ''sensor network'') (asciiLower q))
   \<and> path (the_note sample_candidate_b) \<noteq> ''notes/a.md''"
proof -
  have v: "filterByKeywords asciiLower sample_index [''Sensor''] (Some ''notes/a.md'')
      = [sample_candidate_b]"
    by (simp add: sample_index_value filterByKeywords_def prefilter_def newSet_def
        asciiLower_values matchKeywords_def keywordMatches_def sample_candidate_b_def)
  have keyed: "\<forall>(p, n) \<in> set sample_index. path n = p"
    unfolding sample_index_def by (rule buildIndex_keyed)
  have m: "sample_candidate_b \<in> set [sample_candidate_b]" by simp
  have k: "''sensor network'' \<in> set (matchedKeywords sample_candidate_b)"
    by (simp add: sample_candidate_b_def)
  note C = prefilter_contract [of "[sample_candidate_b]" asciiLower sample_index "[''Sensor'']"
      "Some ''notes/a.md''", OF disjI1 [OF v [symmetric]]]
  from C have len: "length [sample_candidate_b] \<le> 10" by (rule conjunct1)
  from C m have c: "note_keywords (the_note sample_candidate_b) \<noteq> []
        \<and> matchedKeywords sample_candidate_b \<noteq> []
        \<and> (\<forall>k \<in> set (matchedKeywords sample_candidate_b).
              k \<in> set (note_keywords (the_note sample_candidate_b))
              \<and> (\<exists>q \<in> set [''Sensor'']. keywordMatches (asciiLower k) (asciiLower q)))
        \<and> (\<exists>p. (p, the_note sample_candidate_b) \<in> set sample_index
                 \<and> \<not> isExcluded (Some ''notes/a.md'') p)
        \<and> ((\<forall>(p, n) \<in> set sample_index. path n = p)
              \<longrightarrow> (\<forall>e. Some ''notes/a.md'' = Some e \<and> e \<noteq> []
                     \<longrightarrow> path (the_note sample_candidate_b) \<noteq> e))"
    by blast
  from c keyed have "\<forall>e. Some ''notes/a.md'' = Some e \<and> e \<noteq> []
                     \<longrightarrow> path (the_note sample_candidate_b) \<noteq> e"
    by blast
  then have p: "path (the_note sample_candidate_b) \<noteq> ''notes/a.md''" by simp
  from c k have k2: "''sensor network'' \<in> set (note_keywords (the_note sample_candidate_b))"
    and k3: "\<exists>q \<in> set [''Sensor'']. keywordMatches (asciiLower ''sensor network'') (asciiLower q)"
    by blast+
  from c have nk: "note_keywords (the_note sample_candidate_b) \<noteq> []" by (rule conjunct1)
  from v len m k nk k2 k3 p show ?thesis by (intro conjI)
qed


section \<open>Entries of the classifier that point outside the candidate list\<close>

lemma mapAiResults_out_of_range:
  "\<forall>r \<in> set rs. index r < 0 \<or> index r \<ge> real (length cands) \<Longrightarrow>
   mapAiResults cands rs acc = Inr acc"
  by (induction rs arbitrary: acc) auto

lemma mapAiResults_drops:
  "mapAiResults cands (filter (\<lambda>r. 0 \<le> index r \<and> index r < real (length cands)) rs) acc
   = mapAiResults cands rs acc"
  by (induction rs arbitrary: acc) auto

text \<open>
  Claim C9. The loop that maps the classifier's entries to records drops every entry whose
  index is negative or at least the number of candidates, and does so without raising: the
  result is the one the loop gives on the entries that are in range. When every entry is out
  of range the loop returns the empty list, and so do \<open>findRelatedZettels\<close> and
  \<open>findRelated\<close> (for example on the index 7 against three candidates).
\<close>

theorem out_of_range_results_dropped:
  "mapAiResults cands (filter (\<lambda>r. 0 \<le> index r \<and> index r < real (length cands)) rs) acc
     = mapAiResults cands rs acc
   \<and> ((\<forall>r \<in> set rs. index r < 0 \<or> index r \<ge> real (length cands))
        \<longrightarrow> mapAiResults cands rs [] = Inr [])
   \<and> (gw newZkNoteTitle kws
          (candidatesText (filterZettelsByKeywords lc kws (getZettelIndex idx) excl)) = Inr rs
        \<and> (\<forall>r \<in> set rs. index r < 0
              \<or> index r \<ge> real (length (filterZettelsByKeywords lc kws (getZettelIndex idx) excl)))
        \<longrightarrow> findRelatedZettels lc gw idx kws excl = Inr [])
   \<and> (gw ttl kws (candidatesText (filterByKeywords lc idx kws excl)) = Inr rs
        \<and> (\<forall>r \<in> set rs. index r < 0
              \<or> index r \<ge> real (length (filterByKeywords lc idx kws excl)))
        \<longrightarrow> findRelated lc gw idx (Inr kws) ttl excl = Inr [])"
proof (intro conjI impI)
  show "mapAiResults cands (filter (\<lambda>r. 0 \<le> index r \<and> index r < real (length cands)) rs) acc
     = mapAiResults cands rs acc" by (rule mapAiResults_drops)
next
  assume "\<forall>r \<in> set rs. index r < 0 \<or> index r \<ge> real (length cands)"
  then show "mapAiResults cands rs [] = Inr []" by (rule mapAiResults_out_of_range)
next
  assume a: "gw newZkNoteTitle kws
          (candidatesText (filterZettelsByKeywords lc kws (getZettelIndex idx) excl)) = Inr rs
        \<and> (\<forall>r \<in> set rs. index r < 0
              \<or> index r \<ge> real (length (filterZettelsByKeywords lc kws (getZettelIndex idx) excl)))"
  then have "mapAiResults (filterZettelsByKeywords lc kws (getZettelIndex idx) excl) rs [] = Inr []"
    by (intro mapAiResults_out_of_range) simp
  with a show "findRelatedZettels lc gw idx kws excl = Inr []"
    by (simp add: findRelatedZettels_def Let_def)
next
  assume a: "gw ttl kws (candidatesText (filterByKeywords lc idx kws excl)) = Inr rs
        \<and> (\<forall>r \<in> set rs. index r < 0
              \<or> index r \<ge> real (length (filterByKeywords lc idx kws excl)))"
  then have "mapAiResults (filterByKeywords lc idx kws excl) rs [] = Inr []"
    by (intro mapAiResults_out_of_range) simp
  with a show "findRelated lc gw idx (Inr kws) ttl excl = Inr []"
    by (simp add: findRelated_def Let_def)
qed

theorem out_of_range_results_dropped_witness:
  "length (filterZettelsByKeywords asciiLower [''sensor''] (getZettelIndex sample_index4) None) = 3
   \<and> sample_gateway newZkNoteTitle [''sensor'']
         (candidatesText
           (filterZettelsByKeywords asciiLower [''sensor''] (getZettelIndex sample_index4) None))
       = Inr [\<lparr> index = 7, ai_relevance = 9 / 10, ai_reason = Some ''related'', ai_type = None \<rparr>]
   \<and> findRelatedZettels asciiLower sample_gateway sample_index4 [''sensor''] None = Inr []"
proof -
  let ?rs = "[\<lparr> index = 7, ai_relevance = 9 / 10, ai_reason = Some ''related'', ai_type = None \<rparr>]"
  let ?cands = "filterZettelsByKeywords asciiLower [''sensor''] (getZettelIndex sample_index4) None"
  have len: "length ?cands = 3"
    by (simp add: sample_index4_value sample_index_value getZettelIndex_def
        filterZettelsByKeywords_def prefilter_def newSet_def asciiLower_values
        matchKeywords_def keywordMatches_def)
  have g: "sample_gateway newZkNoteTitle [''sensor''] (candidatesText ?cands) = Inr ?rs"
    by (simp add: sample_gateway_def)
  have r: "\<forall>r \<in> set ?rs. index r < 0 \<or> index r \<ge> real (length ?cands)"
    by (simp add: len)
  from out_of_range_results_dropped
    [where gw = sample_gateway and kws = "[''sensor'']" and lc = asciiLower
       and idx = sample_index4 and excl = None and rs = ?rs,
     THEN conjunct2, THEN conjunct2, THEN conjunct1] conjI [OF g r]
  have "findRelatedZettels asciiLower sample_gateway sample_index4 [''sensor''] None = Inr []"
    by (rule mp)
  with len g show ?thesis by (intro conjI)
qed


section \<open>The identifier allocator\<close>

subsection \<open>Decimal strings\<close>

lemma digitValue_digit_char: "d < 10 \<Longrightarrow> digitValue (digit_char d) = d"
proof -
  assume "d < 10"
  then have "d \<in> {0, 1, 2, 3, 4, 5, 6, 7, 8, 9}" by auto
  then show ?thesis by (auto simp: digitValue_def digit_char_def)
qed

lemma isDigit_digit_char: "d < 10 \<Longrightarrow> isDigit (digit_char d)"
proof -
  assume "d < 10"
  then have "d \<in> {0, 1, 2, 3, 4, 5, 6, 7, 8, 9}" by auto
  then show ?thesis by (auto simp: isDigit_def digit_char_def)
qed

lemma parseInt_snoc: "parseInt (s @ [c]) = 10 * parseInt s + digitValue c"
  by (simp add: parseInt_def)

lemma parseInt_toString: "parseInt (toString n) = n"
proof (induction n rule: toString.induct)
  case (1 n)
  show ?case
  proof (cases "n < 10")
    case True
    then show ?thesis
      by (simp add: toString.simps [of n] parseInt_def digitValue_digit_char)
  next
    case False
    with "1.IH" have "parseInt (toString (n div 10)) = n div 10" by simp
    with False show ?thesis
      by (simp add: toString.simps [of n] parseInt_snoc digitValue_digit_char)
  qed
qed

lemma toString_digits: "list_all isDigit (toString n)"
proof (induction n rule: toString.induct)
  case (1 n)
  then show ?case
    by (cases "n < 10") (simp_all add: toString.simps [of n] isDigit_digit_char)
qed

lemma toString_length: "n < 1000 \<Longrightarrow> length (toString n) \<le> 3"
  by (simp add: toString.simps [of n] toString.simps [of "n div 10"]
      toString.simps [of "n div 10 div 10"] div_less_iff_less_mult)

lemma toString_nonempty: "toString n \<noteq> []"
  by (simp add: toString.simps [of n])

lemma parseInt_zeros: "parseInt (replicate k (CHR ''0'') @ s) = parseInt s"
proof -
  have "foldl (\<lambda>acc c. 10 * acc + digitValue c) 0 (replicate k (CHR ''0'')) = 0"
    by (induction k) (simp_all add: digitValue_def)
  then show ?thesis by (simp add: parseInt_def)
qed

lemma parseInt_padStart: "parseInt (padStart 3 (CHR ''0'') (toString n)) = n"
  by (simp add: padStart_def parseInt_zeros parseInt_toString)

lemma padStart_digits: "list_all isDigit (padStart 3 (CHR ''0'') (toString n))"
proof -
  have "isDigit (CHR ''0'')" by (simp add: isDigit_def)
  then have "list_all isDigit (replicate k (CHR ''0''))" for k by (simp add: list_all_iff)
  with toString_digits [of n] show ?thesis by (simp add: padStart_def)
qed

lemma padStart_length: "n < 1000 \<Longrightarrow> length (padStart 3 (CHR ''0'') (toString n)) = 3"
  using toString_length [of n] by (simp add: padStart_def)

lemma padStart_length_ge: "length (padStart 3 (CHR ''0'') (toString n)) \<ge> 3"
  by (simp add: padStart_def)

lemma map_of_map_set: "map_of (map_set m k v) = (map_of m)(k \<mapsto> v)"
  by (induction m) (auto simp: fun_eq_iff)

lemma dailyCount_set:
  "dailyCount (st\<lparr>zkDailyCounter := map_set (zkDailyCounter st) d c\<rparr>) d' =
   (if d' = d then c else dailyCount st d')"
  by (simp add: dailyCount_def map_get_def map_of_map_set)

lemma generateZKId_date_sequence:
  "generateZKId ''date-sequence'' clk st =
   (today clk @ ''-'' @ padStart 3 (CHR ''0'') (toString (dailyCount st (today clk) + 1)),
    st\<lparr>zkDailyCounter := map_set (zkDailyCounter st) (today clk) (dailyCount st (today clk) + 1)\<rparr>)"
  by (simp add: generateZKId_def Let_def)

text \<open>
  Claim C5. Under the date-sequence scheme two consecutive allocations on the same date
  return \<open>YYYYMMDD-k\<close> and \<open>YYYYMMDD-(k+1)\<close>, where \<open>k\<close> is one more than the high-water
  mark of the date, the sequence being written in decimal and padded with zeros to at least
  three digits; the two identifiers differ. After seeding the counters of a fresh process
  from an index whose Zettel identifiers are \<open>20260102-001\<close> to \<open>20260102-005\<close>, the
  allocation on the date \<open>20260102\<close> returns \<open>20260102-006\<close>.
\<close>

theorem date_sequence_consecutive:
  "fst (generateZKId ''date-sequence'' clk st)
     = today clk @ ''-'' @ padStart 3 (CHR ''0'') (toString (dailyCount st (today clk) + 1))
   \<and> fst (generateZKId ''date-sequence'' (clk\<lparr>now := t\<rparr>)
            (snd (generateZKId ''date-sequence'' clk st)))
     = today clk @ ''-'' @ padStart 3 (CHR ''0'') (toString (dailyCount st (today clk) + 2))
   \<and> fst (generateZKId ''date-sequence'' clk st)
       \<noteq> fst (generateZKId ''date-sequence'' (clk\<lparr>now := t\<rparr>)
              (snd (generateZKId ''date-sequence'' clk st)))
   \<and> length (padStart 3 (CHR ''0'') (toString (dailyCount st (today clk) + 1))) \<ge> 3
   \<and> existingZKIds sample_dated_index
       = [''20260102-001'', ''20260102-003'', ''20260102-002'', ''20260102-005'', ''20260102-004'']
   \<and> fst (generateZKId ''date-sequence'' \<lparr> now = t, today = ''20260102'' \<rparr>
            (initializeZKCounters initial_counters sample_dated_index)) = ''20260102-006''"
proof (intro conjI)
  let ?k = "dailyCount st (today clk) + 1"
  show a: "fst (generateZKId ''date-sequence'' clk st)
     = today clk @ ''-'' @ padStart 3 (CHR ''0'') (toString ?k)"
    by (simp add: generateZKId_date_sequence)
  show b: "fst (generateZKId ''date-sequence'' (clk\<lparr>now := t\<rparr>)
            (snd (generateZKId ''date-sequence'' clk st)))
     = today clk @ ''-'' @ padStart 3 (CHR ''0'') (toString (dailyCount st (today clk) + 2))"
    by (simp add: generateZKId_date_sequence dailyCount_set)
  have "padStart 3 (CHR ''0'') (toString ?k)
      \<noteq> padStart 3 (CHR ''0'') (toString (dailyCount st (today clk) + 2))"
  proof
    assume "padStart 3 (CHR ''0'') (toString ?k)
      = padStart 3 (CHR ''0'') (toString (dailyCount st (today clk) + 2))"
    then have "parseInt (padStart 3 (CHR ''0'') (toString ?k))
      = parseInt (padStart 3 (CHR ''0'') (toString (dailyCount st (today clk) + 2)))" by simp
    then show False by (simp add: parseInt_padStart)
  qed
  then show "fst (generateZKId ''date-sequence'' clk st)
       \<noteq> fst (generateZKId ''date-sequence'' (clk\<lparr>now := t\<rparr>)
              (snd (generateZKId ''date-sequence'' clk st)))"
    by (simp add: a b)
  show "length (padStart 3 (CHR ''0'') (toString ?k)) \<ge> 3" by (rule padStart_length_ge)
  show "existingZKIds sample_dated_index
       = [''20260102-001'', ''20260102-003'', ''20260102-002'', ''20260102-005'', ''20260102-004'']"
    by (simp add: existingZKIds_def sample_dated_index_def sample_zettel_def getZettelIndex_def fileNameOf_def
        zkIdOf_def)
  show "fst (generateZKId ''date-sequence'' \<lparr> now = t, today = ''20260102'' \<rparr>
            (initializeZKCounters initial_counters sample_dated_index)) = ''20260102-006''"
    by (simp add: sample_dated_index_def sample_zettel_def initializeZKCounters_def getZettelIndex_def
        seedCounters_def fileNameOf_def dateSeqMatch_def isDigit_def parseInt_def digitValue_def
        dailyCount_def map_get_def generateZKId_def padStart_def toString.simps digit_char_def
        initial_counters_def Let_def numeral_2_eq_2)
qed


subsection \<open>Seeding\<close>

lemma seedCounters_daily_mono: "dailyCount st d \<le> dailyCount (seedCounters z st e) d"
  by (auto simp: seedCounters_def Let_def dailyCount_def map_get_def map_of_map_set
      split: option.splits prod.splits)

lemma seedCounters_daily_covers:
  "dateSeqMatch (fileNameOf (fst e)) = Some (d, s) \<Longrightarrow>
   parseInt s \<le> dailyCount (seedCounters z st e) d"
  by (auto simp: seedCounters_def Let_def dailyCount_def map_get_def map_of_map_set
      split: option.splits)

lemma foldl_seedCounters_daily_mono:
  "dailyCount st d \<le> dailyCount (foldl (seedCounters z) st es) d"
proof (induction es arbitrary: st)
  case Nil
  show ?case by simp
next
  case (Cons e es)
  from seedCounters_daily_mono [of st d z e] Cons.IH [of "seedCounters z st e"]
  show ?case by simp
qed

lemma foldl_seedCounters_daily_covers:
  "e \<in> set es \<Longrightarrow> dateSeqMatch (fileNameOf (fst e)) = Some (d, s) \<Longrightarrow>
   parseInt s \<le> dailyCount (foldl (seedCounters z) st es) d"
proof (induction es arbitrary: st)
  case Nil
  then show ?case by simp
next
  case (Cons a es)
  show ?case
  proof (cases "e = a")
    case True
    from seedCounters_daily_covers [OF Cons.prems(2) [unfolded True], of z st]
      foldl_seedCounters_daily_mono [of "seedCounters z st a" d z es]
    show ?thesis by simp
  next
    case False
    with Cons.prems have "e \<in> set es" by simp
    from Cons.IH [OF this Cons.prems(2)] show ?thesis by simp
  qed
qed

lemma initializeZKCounters_daily_covers:
  "e \<in> set (getZettelIndex idx) \<Longrightarrow> dateSeqMatch (fileNameOf (fst e)) = Some (d, s) \<Longrightarrow>
   parseInt s \<le> dailyCount (initializeZKCounters st idx) d"
  unfolding initializeZKCounters_def Let_def by (rule foldl_seedCounters_daily_covers)

lemma seedCounters_luhmann: "int z \<le> zkLuhmannCounter (seedCounters z st e)"
  by (simp add: seedCounters_def Let_def split: option.splits prod.splits)

lemma foldl_seedCounters_luhmann:
  "es \<noteq> [] \<Longrightarrow> int z \<le> zkLuhmannCounter (foldl (seedCounters z) st es)"
proof (induction es arbitrary: st rule: rev_induct)
  case Nil
  then show ?case by simp
next
  case (snoc e es)
  show ?case by (simp add: seedCounters_luhmann)
qed

lemma initializeZKCounters_luhmann:
  "getZettelIndex idx \<noteq> [] \<Longrightarrow>
   int (length (getZettelIndex idx)) \<le> zkLuhmannCounter (initializeZKCounters st idx)"
  unfolding initializeZKCounters_def Let_def by (rule foldl_seedCounters_luhmann)

lemma zkIdOf_prefix: "prefix (zkIdOf f) f"
  unfolding zkIdOf_def by (metis prefixI takeWhile_dropWhile_id)

lemma dateSeqMatch_of_id:
  assumes "length d = 8" "list_all isDigit d" "length q = 3" "list_all isDigit q"
    and "prefix (d @ ''-'' @ q) f"
  shows "dateSeqMatch f = Some (d, q)"
proof -
  from assms(5) obtain r where f: "f = d @ ''-'' @ q @ r" by (auto simp: prefix_def)
  with assms(1-4) show ?thesis by (simp add: dateSeqMatch_def nth_append)
qed

lemma date_sequence_fresh:
  assumes d8: "length (today clk) = 8" and dd: "list_all isDigit (today clk)"
    and dom: "\<forall>d. dailyCount (initializeZKCounters st idx) d \<le> dailyCount st' d"
    and lt: "dailyCount st' (today clk) < 999"
  shows "fst (generateZKId ''date-sequence'' clk st') \<notin> set (existingZKIds idx)"
proof
  let ?k = "dailyCount st' (today clk) + 1"
  let ?q = "padStart 3 (CHR ''0'') (toString ?k)"
  assume "fst (generateZKId ''date-sequence'' clk st') \<in> set (existingZKIds idx)"
  then obtain e where e: "e \<in> set (getZettelIndex idx)"
    and eq: "zkIdOf (fileNameOf (fst e)) = today clk @ ''-'' @ ?q"
    by (auto simp: existingZKIds_def generateZKId_date_sequence)
  from lt have q3: "length ?q = 3" by (intro padStart_length) simp
  have qd: "list_all isDigit ?q" by (rule padStart_digits)
  from zkIdOf_prefix [of "fileNameOf (fst e)"] eq
  have "prefix (today clk @ ''-'' @ ?q) (fileNameOf (fst e))" by simp
  from dateSeqMatch_of_id [OF d8 dd q3 qd this]
  have "dateSeqMatch (fileNameOf (fst e)) = Some (today clk, ?q)" .
  from initializeZKCounters_daily_covers [OF e this, of st]
  have "?k \<le> dailyCount (initializeZKCounters st idx) (today clk)"
    by (simp add: parseInt_padStart)
  with dom show False by (metis Suc_eq_plus1 not_less_eq_eq order_trans)
qed

lemma toString_inj: "toString a = toString b \<Longrightarrow> a = b"
  by (metis parseInt_toString)


lemma generateZKId_luhmann:
  "fst (generateZKId ''luhmann'' clk st) = toLuhmannId (zkLuhmannCounter st + 1)"
  by (simp add: generateZKId_def)

lemma generateZKId_timestamp:
  "fst (generateZKId ''timestamp'' clk st) = toString (now clk)"
  by (simp add: generateZKId_def)

lemma luhmann_fresh:
  assumes k: "1 \<le> k" "k \<le> int (length (getZettelIndex idx))"
    and dom: "zkLuhmannCounter (initializeZKCounters st idx) \<le> zkLuhmannCounter st'"
  shows "fst (generateZKId ''luhmann'' clk st') \<noteq> toLuhmannId k"
proof
  assume eq: "fst (generateZKId ''luhmann'' clk st') = toLuhmannId k"
  from k have "getZettelIndex idx \<noteq> []" by auto
  from initializeZKCounters_luhmann [OF this, of st] k dom
  have c: "k \<le> zkLuhmannCounter st'" by simp
  with k have "1 \<le> zkLuhmannCounter st' + 1" by simp
  from toLuhmannId_inj [OF this k(1)] eq have "zkLuhmannCounter st' + 1 = k"
    by (simp add: generateZKId_luhmann)
  with c show False by simp
qed

text \<open>
  Claim C4, as stated, fails. The timestamp scheme returns the clock reading and never
  looks at the index: when the clock reads the instant that an existing note was named
  after, the identifier is that note's. With the luhmann scheme the counter is seeded with
  the \<^emph>\<open>number\<close> of Zettel notes, not with the identifiers they carry: in a vault where
  \<open>1 Alpha\<close> and \<open>2 Beta\<close> were created and \<open>1 Alpha\<close> was deleted, the counter is seeded
  with 1 and the next identifier is \<open>2\<close>, the identifier of \<open>2 Beta\<close>.
\<close>

theorem generateZKId_fresh_counterexample:
  "fst (generateZKId ''timestamp'' \<lparr> now = 1767312000000, today = ''20260102'' \<rparr>
          (initializeZKCounters initial_counters sample_index_timestamp))
     \<in> set (existingZKIds sample_index_timestamp)
   \<and> existingZKIds sample_index_after_delete = [''2'']
   \<and> fst (generateZKId ''luhmann'' \<lparr> now = 0, today = ''20260102'' \<rparr>
            (initializeZKCounters initial_counters sample_index_after_delete)) = ''2''
   \<and> fst (generateZKId ''luhmann'' \<lparr> now = 0, today = ''20260102'' \<rparr>
            (initializeZKCounters initial_counters sample_index_after_delete))
       \<in> set (existingZKIds sample_index_after_delete)"
proof -
  have t: "toString 1767312000000 = ''1767312000000''"
    by (simp add: toString.simps digit_char_def)
  have e: "existingZKIds sample_index_timestamp = [''1767312000000'']"
    by (simp add: existingZKIds_def sample_index_timestamp_def sample_zettel_def
        getZettelIndex_def fileNameOf_def zkIdOf_def)
  have ts: "fst (generateZKId ''timestamp'' \<lparr> now = 1767312000000, today = ''20260102'' \<rparr>
          (initializeZKCounters initial_counters sample_index_timestamp))
     \<in> set (existingZKIds sample_index_timestamp)"
    by (simp add: generateZKId_timestamp t e)
  have a: "existingZKIds sample_index_after_delete = [''2'']"
    by (simp add: existingZKIds_def sample_index_after_delete_def sample_zettel_def
        getZettelIndex_def fileNameOf_def zkIdOf_def)
  have "zkLuhmannCounter (initializeZKCounters initial_counters sample_index_after_delete) = 1"
    by (simp add: initializeZKCounters_def sample_index_after_delete_def sample_zettel_def
        getZettelIndex_def seedCounters_def fileNameOf_def dateSeqMatch_def initial_counters_def
        Let_def)
  moreover have "toLuhmannId 2 = ''2''" by code_simp
  ultimately have b: "fst (generateZKId ''luhmann'' \<lparr> now = 0, today = ''20260102'' \<rparr>
            (initializeZKCounters initial_counters sample_index_after_delete)) = ''2''"
    by (simp add: generateZKId_luhmann)
  from ts a b show ?thesis by simp
qed

text \<open>
  Claim C4, amended. Let the counters be seeded from the index, and let \<open>st'\<close> be the seeded
  state or a later one (no counter below its seeded value).
  \<^item> date-sequence: when the date has eight digits and fewer than 999 identifiers were
    counted for it, the identifier returned differs from the identifier of every Zettel
    note of the index;
  \<^item> luhmann: the identifier returned differs from \<open>toLuhmannId k\<close> for every \<open>k\<close> from 1 to
    the number of Zettel notes of the index (it is new when the identifiers present are
    these encodings, not in general);
  \<^item> timestamp: the identifier is the decimal clock reading, and differs from the decimal
    string of every other instant; the index is not consulted.
\<close>

theorem generateZKId_fresh_amended:
  "(length (today clk) = 8 \<and> list_all isDigit (today clk)
      \<and> (\<forall>d. dailyCount (initializeZKCounters st idx) d \<le> dailyCount st' d)
      \<and> dailyCount st' (today clk) < 999
      \<longrightarrow> fst (generateZKId ''date-sequence'' clk st') \<notin> set (existingZKIds idx))
   \<and> (1 \<le> k \<and> k \<le> int (length (getZettelIndex idx))
      \<and> zkLuhmannCounter (initializeZKCounters st idx) \<le> zkLuhmannCounter st'
      \<longrightarrow> fst (generateZKId ''luhmann'' clk st') \<noteq> toLuhmannId k)
   \<and> fst (generateZKId ''timestamp'' clk st') = toString (now clk)
   \<and> (t \<noteq> now clk \<longrightarrow> fst (generateZKId ''timestamp'' clk st') \<noteq> toString t)"
proof (intro conjI impI)
  assume "length (today clk) = 8 \<and> list_all isDigit (today clk)
      \<and> (\<forall>d. dailyCount (initializeZKCounters st idx) d \<le> dailyCount st' d)
      \<and> dailyCount st' (today clk) < 999"
  then show "fst (generateZKId ''date-sequence'' clk st') \<notin> set (existingZKIds idx)"
    using date_sequence_fresh [of clk st idx st'] by blast
next
  assume "1 \<le> k \<and> k \<le> int (length (getZettelIndex idx))
      \<and> zkLuhmannCounter (initializeZKCounters st idx) \<le> zkLuhmannCounter st'"
  then show "fst (generateZKId ''luhmann'' clk st') \<noteq> toLuhmannId k"
    using luhmann_fresh [of k idx st st' clk] by blast
next
  show "fst (generateZKId ''timestamp'' clk st') = toString (now clk)"
    by (rule generateZKId_timestamp)
next
  assume "t \<noteq> now clk"
  then show "fst (generateZKId ''timestamp'' clk st') \<noteq> toString t"
    using toString_inj [of t "now clk"] by (auto simp: generateZKId_timestamp)
qed

theorem generateZKId_fresh_amended_witness:
  "length ''20260102'' = 8 \<and> list_all isDigit ''20260102''
   \<and> dailyCount (initializeZKCounters initial_counters sample_dated_index) ''20260102'' = 5
   \<and> fst (generateZKId ''date-sequence'' \<lparr> now = 7, today = ''20260102'' \<rparr>
            (initializeZKCounters initial_counters sample_dated_index))
       \<notin> set (existingZKIds sample_dated_index)
   \<and> length (getZettelIndex sample_dated_index) = 5
   \<and> fst (generateZKId ''luhmann'' \<lparr> now = 7, today = ''20260102'' \<rparr>
            (initializeZKCounters initial_counters sample_dated_index)) \<noteq> toLuhmannId 5
   \<and> fst (generateZKId ''timestamp'' \<lparr> now = 7, today = ''20260102'' \<rparr> initial_counters)
       \<noteq> toString 8"
proof -
  let ?clk = "\<lparr> now = 7, today = ''20260102'' \<rparr>"
  let ?st = "initializeZKCounters initial_counters sample_dated_index"
  have h1: "length (today ?clk) = 8 \<and> list_all isDigit (today ?clk)"
    by (simp add: isDigit_def)
  have h2: "dailyCount ?st ''20260102'' = 5"
    by (simp add: sample_dated_index_def sample_zettel_def initializeZKCounters_def
        getZettelIndex_def seedCounters_def fileNameOf_def dateSeqMatch_def isDigit_def
        parseInt_def digitValue_def dailyCount_def map_get_def initial_counters_def Let_def)
  have h3: "length (getZettelIndex sample_dated_index) = 5"
    by (simp add: sample_dated_index_def sample_zettel_def getZettelIndex_def)
  have h4: "\<forall>d. dailyCount ?st d \<le> dailyCount ?st d" by simp
  have h5: "dailyCount ?st (today ?clk) < 999" using h2 by simp
  note T = generateZKId_fresh_amended [where clk = ?clk and st = initial_counters
      and idx = sample_dated_index and st' = ?st and k = 5 and t = 8]
  from T h1 h4 h5 have c1: "fst (generateZKId ''date-sequence'' ?clk ?st)
       \<notin> set (existingZKIds sample_dated_index)" by blast
  from T h3 have c2: "fst (generateZKId ''luhmann'' ?clk ?st) \<noteq> toLuhmannId 5" by simp
  have h6: "(8::nat) \<noteq> now ?clk" by simp
  have c3: "fst (generateZKId ''timestamp'' ?clk initial_counters) \<noteq> toString 8"
    using generateZKId_fresh_amended
      [where clk = ?clk and st' = initial_counters and t = 8 and st = initial_counters
         and idx = "[]" and k = 0,
       THEN conjunct2, THEN conjunct2, THEN conjunct2] h6
    by (rule mp)
  from h1 h2 h3 c1 c2 c3 show ?thesis by simp
qed

section \<open>The merge-or-create decision\<close>

lemma find_None_iff_ball: "(List.find P xs = None) = (\<forall>x \<in> set xs. \<not> P x)"
  by (induction xs) auto

lemma confirmShown_iff:
  "(confirmShown (decideMergeOrCreate settings modal candidate similarNotes) \<noteq> None)
   = (\<exists>n \<in> set similarNotes. relevance n \<ge> zkMergeThreshold settings)"
proof (cases "List.find (\<lambda>n. relevance n \<ge> zkMergeThreshold settings) similarNotes")
  case None
  then show ?thesis
    by (simp add: decideMergeOrCreate_def find_None_iff_ball [THEN iffD1, OF None])
next
  case (Some h)
  then have "\<not> (\<forall>n \<in> set similarNotes. \<not> relevance n \<ge> zkMergeThreshold settings)"
    by (simp add: find_None_iff_ball [symmetric])
  with Some show ?thesis by (auto simp: decideMergeOrCreate_def)
qed

text \<open>
  Claim C8. For a candidate of the create loop the merge confirmation is shown exactly when
  some related-Zettel result found for it has a relevance at least the configured merge
  threshold, whose default is 0.8; against that default a result of relevance 0.85 opens
  the confirmation and one of relevance 0.79 does not.
\<close>

theorem merge_decision_iff_threshold:
  "((confirmShown (decideMergeOrCreate settings modal candidate similarNotes) \<noteq> None)
      = (\<exists>n \<in> set similarNotes. relevance n \<ge> zkMergeThreshold settings))
   \<and> (findRelatedZettels lc gw idx (zk_keywords candidate) None = Inr similarNotes
        \<longrightarrow> (\<exists>d. mergeCheck lc gw idx settings modal candidate = Inr d
               \<and> ((confirmShown d \<noteq> None)
                    = (\<exists>n \<in> set similarNotes. relevance n \<ge> zkMergeThreshold settings))))
   \<and> zkMergeThreshold DEFAULT_SETTINGS = 8 / 10
   \<and> (relevance n = 85 / 100
        \<longrightarrow> confirmShown (decideMergeOrCreate DEFAULT_SETTINGS modal candidate [n]) = Some n)
   \<and> (relevance n = 79 / 100
        \<longrightarrow> confirmShown (decideMergeOrCreate DEFAULT_SETTINGS modal candidate [n]) = None)"
proof (intro conjI impI)
  show "(confirmShown (decideMergeOrCreate settings modal candidate similarNotes) \<noteq> None)
      = (\<exists>n \<in> set similarNotes. relevance n \<ge> zkMergeThreshold settings)"
    by (rule confirmShown_iff)
next
  assume "findRelatedZettels lc gw idx (zk_keywords candidate) None = Inr similarNotes"
  then have "mergeCheck lc gw idx settings modal candidate
      = Inr (decideMergeOrCreate settings modal candidate similarNotes)"
    by (simp add: mergeCheck_def)
  with confirmShown_iff [of settings modal candidate similarNotes]
  show "\<exists>d. mergeCheck lc gw idx settings modal candidate = Inr d
               \<and> ((confirmShown d \<noteq> None)
                    = (\<exists>n \<in> set similarNotes. relevance n \<ge> zkMergeThreshold settings))"
    by blast
next
  show "zkMergeThreshold DEFAULT_SETTINGS = 8 / 10" by (simp add: DEFAULT_SETTINGS_def)
next
  assume "relevance n = 85 / 100"
  then show "confirmShown (decideMergeOrCreate DEFAULT_SETTINGS modal candidate [n]) = Some n"
    by (simp add: decideMergeOrCreate_def DEFAULT_SETTINGS_def)
next
  assume "relevance n = 79 / 100"
  then show "confirmShown (decideMergeOrCreate DEFAULT_SETTINGS modal candidate [n]) = None"
    by (simp add: decideMergeOrCreate_def DEFAULT_SETTINGS_def)
qed

theorem merge_decision_iff_threshold_witness:
  "relevance (sample_similar (85 / 100)) = 85 / 100
   \<and> confirmShown (decideMergeOrCreate DEFAULT_SETTINGS (\<lambda>c n. False) sample_zk_candidate
        [sample_similar (85 / 100)]) = Some (sample_similar (85 / 100))
   \<and> relevance (sample_similar (79 / 100)) = 79 / 100
   \<and> confirmShown (decideMergeOrCreate DEFAULT_SETTINGS (\<lambda>c n. False) sample_zk_candidate
        [sample_similar (79 / 100)]) = None"
proof -
  have h1: "relevance (sample_similar (85 / 100)) = 85 / 100"
    and h2: "relevance (sample_similar (79 / 100)) = 79 / 100"
    by (simp_all add: sample_similar_def)
  note T1 = merge_decision_iff_threshold
    [where n = "sample_similar (85 / 100)" and modal = "\<lambda>c n. False"
       and candidate = sample_zk_candidate and settings = DEFAULT_SETTINGS
       and similarNotes = "[]" and lc = id and gw = sample_gateway and idx = "[]",
     THEN conjunct2, THEN conjunct2, THEN conjunct2, THEN conjunct1]
  note T2 = merge_decision_iff_threshold
    [where n = "sample_similar (79 / 100)" and modal = "\<lambda>c n. False"
       and candidate = sample_zk_candidate and settings = DEFAULT_SETTINGS
       and similarNotes = "[]" and lc = id and gw = sample_gateway and idx = "[]",
     THEN conjunct2, THEN conjunct2, THEN conjunct2, THEN conjunct2]
  from T1 h1 have c1: "confirmShown (decideMergeOrCreate DEFAULT_SETTINGS (\<lambda>c n. False)
        sample_zk_candidate [sample_similar (85 / 100)]) = Some (sample_similar (85 / 100))"
    by (rule mp)
  from T2 h2 have c2: "confirmShown (decideMergeOrCreate DEFAULT_SETTINGS (\<lambda>c n. False)
        sample_zk_candidate [sample_similar (79 / 100)]) = None"
    by (rule mp)
  from h1 c1 h2 c2 show ?thesis by (intro conjI)
qed

section \<open>The link steps\<close>

subsection \<open>Substrings and replacement templates\<close>

lemma str_includes_iff: "str_includes s t \<longleftrightarrow> (\<exists>p q. s = p @ t @ q)"
proof (induction s)
  case Nil
  show ?case by auto
next
  case (Cons c s)
  show ?case
  proof
    assume "str_includes (c # s) t"
    then consider "prefix t (c # s)" | "str_includes s t" by auto
    then show "\<exists>p q. c # s = p @ t @ q"
    proof cases
      case 1
      then obtain q where "c # s = t @ q" by (auto simp: prefix_def)
      then have "c # s = [] @ t @ q" by simp
      then show ?thesis by blast
    next
      case 2
      with Cons.IH obtain p q where "s = p @ t @ q" by blast
      then have "c # s = (c # p) @ t @ q" by simp
      then show ?thesis by blast
    qed
  next
    assume "\<exists>p q. c # s = p @ t @ q"
    then obtain p q where e: "c # s = p @ t @ q" by blast
    show "str_includes (c # s) t"
    proof (cases p)
      case Nil
      with e have "prefix t (c # s)" by (simp add: prefix_def)
      then show ?thesis by simp
    next
      case (Cons a p')
      with e have "s = p' @ t @ q" by simp
      with Cons.IH have "str_includes s t" by blast
      then show ?thesis by simp
    qed
  qed
qed

lemma str_includesI: "s = p @ t @ q \<Longrightarrow> str_includes s t"
  by (auto simp: str_includes_iff)

lemma getSubstitution_plain:
  "CHR ''$'' \<notin> set a \<Longrightarrow>
   getSubstitution m pre post caps (a @ b) = a @ getSubstitution m pre post caps b"
proof (induction a)
  case Nil
  show ?case by simp
next
  case (Cons c a)
  then have c: "c \<noteq> CHR ''$''" and a: "CHR ''$'' \<notin> set a" by auto
  show ?case
  proof (cases "a @ b")
    case Nil
    then show ?thesis by simp
  next
    case (Cons d t)
    with c Cons.IH [OF a] show ?thesis by simp
  qed
qed

lemma getSubstitution_group1:
  "getSubstitution m pre post [g1, g2] (''$1'' @ newline @ rest)
   = g1 @ getSubstitution m pre post [g1, g2] (newline @ rest)"
  by (simp add: newline_def isDigit_def digitValue_def)

lemma getSubstitution_group2: "getSubstitution m pre post [g1, g2] ''$2'' = g2"
  by (simp add: isDigit_def digitValue_def)

lemma newline_plain: "CHR ''$'' \<notin> set newline"
  by (simp add: newline_def)

lemma wikiLink_plain: "CHR ''$'' \<notin> set name \<Longrightarrow> CHR ''$'' \<notin> set (wikiLink name)"
  by (simp add: wikiLink_def)

text \<open>A line that starts with a link to a name without \<open>$\<close> keeps that link.\<close>

lemma insertIntoLinkedSection_keeps_link:
  assumes "CHR ''$'' \<notin> set name"
  shows "str_includes (insertIntoLinkedSection content (''- '' @ wikiLink name @ rest))
           (wikiLink name)"
proof (cases "matchLinkedSection content")
  case None
  then have "insertIntoLinkedSection content (''- '' @ wikiLink name @ rest)
      = (content @ newline @ ''---'' @ newline @ ''## '' @ linkedNotesTitle @ newline @ ''- '')
          @ wikiLink name @ (rest @ newline)"
    by (simp add: insertIntoLinkedSection_def)
  then show ?thesis by (rule str_includesI)
next
  case (Some m)
  then obtain pre g1 g2 post where m: "m = (pre, g1, g2, post)" by (cases m) auto
  have plain: "CHR ''$'' \<notin> set (newline @ ''- '' @ wikiLink name)"
    using assms by (simp add: newline_def wikiLink_def)
  have "getSubstitution (g1 @ g2) pre post [g1, g2]
          (''$1'' @ newline @ (''- '' @ wikiLink name @ rest) @ ''$2'')
        = g1 @ getSubstitution (g1 @ g2) pre post [g1, g2]
                 ((newline @ ''- '' @ wikiLink name) @ (rest @ ''$2''))"
    using getSubstitution_group1 [of "g1 @ g2" pre post g1 g2
        "(''- '' @ wikiLink name @ rest) @ ''$2''"]
    by simp
  also have "\<dots> = g1 @ (newline @ ''- '' @ wikiLink name)
                 @ getSubstitution (g1 @ g2) pre post [g1, g2] (rest @ ''$2'')"
    by (simp only: getSubstitution_plain [OF plain])
  finally have "insertIntoLinkedSection content (''- '' @ wikiLink name @ rest)
      = (pre @ g1 @ newline @ ''- '') @ wikiLink name
          @ (getSubstitution (g1 @ g2) pre post [g1, g2] (rest @ ''$2'') @ post)"
    using Some m by (simp add: insertIntoLinkedSection_def)
  then show ?thesis by (rule str_includesI)
qed

lemma backLink_shape:
  "backLink newNote r = ''- '' @ wikiLink (basename newNote)
      @ ('' ('' @ percentOf (relevance r) @ ''%)'' @ reasonLine (reason r))"
  by (simp add: backLink_def)

lemma addBacklink_dom: "dom (addBacklink n v r) = dom v"
  by (auto simp: addBacklink_def split: option.splits if_splits)

lemma addBacklink_links:
  assumes "CHR ''$'' \<notin> set (basename n)" "path (the_note r) \<in> dom v"
  shows "linksTo (addBacklink n v r) (path (the_note r)) (basename n)"
proof -
  from assms(2) obtain content where c: "v (path (the_note r)) = Some content" by auto
  show ?thesis
  proof (cases "str_includes content (wikiLink (basename n))")
    case True
    with c show ?thesis by (simp add: addBacklink_def linksTo_def)
  next
    case False
    with c insertIntoLinkedSection_keeps_link [OF assms(1), of content]
    show ?thesis by (simp add: addBacklink_def linksTo_def backLink_shape)
  qed
qed

lemma addBacklink_preserves:
  assumes "CHR ''$'' \<notin> set (basename n)" "linksTo v p (basename n)"
  shows "linksTo (addBacklink n v r) p (basename n)"
proof (cases "p = path (the_note r)")
  case True
  with assms(2) have "path (the_note r) \<in> dom v" by (auto simp: linksTo_def split: option.splits)
  from addBacklink_links [OF assms(1) this] True show ?thesis by simp
next
  case False
  with assms(2) show ?thesis
    by (auto simp: addBacklink_def linksTo_def split: option.splits)
qed

lemma addBacklink_skip:
  "path (the_note r) \<notin> dom v \<or> linksTo v (path (the_note r)) (basename n) \<Longrightarrow>
   addBacklink n v r = v"
  by (auto simp: addBacklink_def linksTo_def split: option.splits)

lemma addBacklinksToZettels_dom: "dom (addBacklinksToZettels v n rs) = dom v"
  unfolding addBacklinksToZettels_def
  by (induction rs arbitrary: v) (simp_all add: addBacklink_dom)

lemma addBacklinksToZettels_preserves:
  "CHR ''$'' \<notin> set (basename n) \<Longrightarrow> linksTo v p (basename n) \<Longrightarrow>
   linksTo (addBacklinksToZettels v n rs) p (basename n)"
  unfolding addBacklinksToZettels_def
  by (induction rs arbitrary: v) (simp_all add: addBacklink_preserves)

lemma addBacklinksToZettels_links:
  assumes "CHR ''$'' \<notin> set (basename n)" "r \<in> set rs" "path (the_note r) \<in> dom v"
  shows "linksTo (addBacklinksToZettels v n rs) (path (the_note r)) (basename n)"
  using assms(2,3)
proof (induction rs arbitrary: v)
  case Nil
  then show ?case by simp
next
  case (Cons a rs)
  show ?case
  proof (cases "r = a")
    case True
    from addBacklink_links [OF assms(1) Cons.prems(2)] True
    have "linksTo (addBacklink n v a) (path (the_note r)) (basename n)" by simp
    from addBacklinksToZettels_preserves [OF assms(1) this, of rs]
    show ?thesis by (simp add: addBacklinksToZettels_def)
  next
    case False
    with Cons.prems have "r \<in> set rs" by simp
    moreover from Cons.prems(2) have "path (the_note r) \<in> dom (addBacklink n v a)"
      by (simp add: addBacklink_dom)
    ultimately have "linksTo (addBacklinksToZettels (addBacklink n v a) n rs)
        (path (the_note r)) (basename n)" by (rule Cons.IH)
    then show ?thesis by (simp add: addBacklinksToZettels_def)
  qed
qed

lemma addBacklinksToZettels_skip:
  "\<forall>r \<in> set rs. path (the_note r) \<notin> dom v \<or> linksTo v (path (the_note r)) (basename n) \<Longrightarrow>
   addBacklinksToZettels v n rs = v"
  unfolding addBacklinksToZettels_def
  by (induction rs) (simp_all add: addBacklink_skip)

text \<open>
  When the basename of the new note holds no \<open>$\<close>, every related note that is a file of
  the vault links to the new note after the backlink step, and a second run of the step
  changes nothing.
\<close>

lemma backlinks_without_dollar:
  assumes "CHR ''$'' \<notin> set (basename n)"
  shows "(\<forall>r \<in> set rs. path (the_note r) \<in> dom v
            \<longrightarrow> linksTo (addBacklinksToZettels v n rs) (path (the_note r)) (basename n))
         \<and> addBacklinksToZettels (addBacklinksToZettels v n rs) n rs
             = addBacklinksToZettels v n rs"
proof
  show l: "\<forall>r \<in> set rs. path (the_note r) \<in> dom v
            \<longrightarrow> linksTo (addBacklinksToZettels v n rs) (path (the_note r)) (basename n)"
    using addBacklinksToZettels_links [OF assms] by blast
  show "addBacklinksToZettels (addBacklinksToZettels v n rs) n rs = addBacklinksToZettels v n rs"
    using l by (intro addBacklinksToZettels_skip) (simp add: addBacklinksToZettels_dom)
qed


subsection \<open>The links of the new note\<close>

lemma str_includes_trans: "str_includes a b \<Longrightarrow> str_includes b c \<Longrightarrow> str_includes a c"
proof -
  assume "str_includes a b" "str_includes b c"
  then obtain p q p' q' where "a = p @ b @ q" "b = p' @ c @ q'"
    by (auto simp: str_includes_iff)
  then have "a = (p @ p') @ c @ (q' @ q)" by simp
  then show ?thesis by (rule str_includesI)
qed

lemma join_includes: "x \<in> set xs \<Longrightarrow> str_includes (join sep xs) x"
proof (induction sep xs rule: join.induct)
  case (1 sep)
  then show ?case by simp
next
  case (2 sep y)
  then have "join sep [y] = [] @ x @ []" by simp
  then show ?case by (rule str_includesI)
next
  case (3 sep y z zs)
  show ?case
  proof (cases "x = y")
    case True
    then have "join sep (y # z # zs) = [] @ x @ (sep @ join sep (z # zs))" by simp
    then show ?thesis by (rule str_includesI)
  next
    case False
    with "3.prems" have "x \<in> set (z # zs)" by simp
    from "3.IH" [OF this] obtain p q where "join sep (z # zs) = p @ x @ q"
      by (auto simp: str_includes_iff)
    then have "join sep (y # z # zs) = (y @ sep @ p) @ x @ q" by simp
    then show ?thesis by (rule str_includesI)
  qed
qed

lemma join_plain:
  "CHR ''$'' \<notin> set sep \<Longrightarrow> \<forall>x \<in> set xs. CHR ''$'' \<notin> set x \<Longrightarrow> CHR ''$'' \<notin> set (join sep xs)"
  by (induction sep xs rule: join.induct) auto

lemma toString_plain: "CHR ''$'' \<notin> set (toString n)"
proof
  assume "CHR ''$'' \<in> set (toString n)"
  with toString_digits [of n] have "isDigit (CHR ''$'')" by (simp add: list_all_iff)
  then show False by (simp add: isDigit_def)
qed

lemma percentOf_plain: "CHR ''$'' \<notin> set (percentOf r)"
  by (simp add: percentOf_def intToString_def toString_plain)

lemma reasonLine_plain: "CHR ''$'' \<notin> set r \<Longrightarrow> CHR ''$'' \<notin> set (reasonLine r)"
  by (simp add: reasonLine_def newline_def arrow_def)

lemma relatedLink_plain:
  "CHR ''$'' \<notin> set (linkNameOf (path (the_note r))) \<Longrightarrow> CHR ''$'' \<notin> set (reason r) \<Longrightarrow>
   CHR ''$'' \<notin> set (relatedLink r)"
  by (simp add: relatedLink_def wikiLink_def percentOf_plain reasonLine_plain)

lemma relatedLink_includes:
  "str_includes (relatedLink r) (wikiLink (linkNameOf (path (the_note r))))"
proof -
  have "relatedLink r = ''- '' @ wikiLink (linkNameOf (path (the_note r)))
      @ ('' ('' @ percentOf (relevance r) @ ''%)'' @ reasonLine (reason r))"
    by (simp add: relatedLink_def)
  then show ?thesis by (rule str_includesI)
qed

lemma insertIntoLinkedSection_plain:
  assumes "CHR ''$'' \<notin> set links"
  shows "str_includes (insertIntoLinkedSection content links) links"
proof (cases "matchLinkedSection content")
  case None
  then have "insertIntoLinkedSection content links
      = (content @ newline @ ''---'' @ newline @ ''## '' @ linkedNotesTitle @ newline)
          @ links @ newline"
    by (simp add: insertIntoLinkedSection_def)
  then show ?thesis by (rule str_includesI)
next
  case (Some m)
  then obtain pre g1 g2 post where m: "m = (pre, g1, g2, post)" by (cases m) auto
  have plain: "CHR ''$'' \<notin> set (newline @ links)"
    using assms by (simp add: newline_def)
  have "getSubstitution (g1 @ g2) pre post [g1, g2] (''$1'' @ newline @ links @ ''$2'')
        = g1 @ getSubstitution (g1 @ g2) pre post [g1, g2] ((newline @ links) @ ''$2'')"
    using getSubstitution_group1 [of "g1 @ g2" pre post g1 g2 "links @ ''$2''"] by simp
  also have "\<dots> = g1 @ (newline @ links) @ g2"
    by (simp only: getSubstitution_plain [OF plain] getSubstitution_group2)
  finally have "insertIntoLinkedSection content links
      = (pre @ g1 @ newline) @ links @ (g2 @ post)"
    using Some m by (simp add: insertIntoLinkedSection_def)
  then show ?thesis by (rule str_includesI)
qed

lemma addZKRelatedLinks_links:
  assumes plain: "\<forall>r \<in> set rs. CHR ''$'' \<notin> set (linkNameOf (path (the_note r)))
                      \<and> CHR ''$'' \<notin> set (reason r)"
    and nfile: "v (tf_path n) = Some content" and r: "r \<in> set rs"
  shows "\<exists>v'. addZKRelatedLinks v n rs = Inr v'
           \<and> linksTo v' (tf_path n) (linkNameOf (path (the_note r)))
           \<and> (\<forall>p. p \<noteq> tf_path n \<longrightarrow> v' p = v p)"
proof -
  let ?links = "join newline (map relatedLink rs)"
  from plain have "CHR ''$'' \<notin> set ?links"
    by (intro join_plain) (auto simp: newline_def relatedLink_plain)
  then have a: "str_includes (insertIntoLinkedSection content ?links) ?links"
    by (rule insertIntoLinkedSection_plain)
  from r have "str_includes ?links (relatedLink r)" by (intro join_includes) simp
  from str_includes_trans [OF a str_includes_trans [OF this relatedLink_includes]]
  have "str_includes (insertIntoLinkedSection content ?links)
          (wikiLink (linkNameOf (path (the_note r))))" .
  moreover from r have "rs \<noteq> []" by auto
  ultimately show ?thesis using nfile
    by (simp add: addZKRelatedLinks_def linksTo_def)
qed

lemma addBacklink_other: "path (the_note r) \<noteq> p \<Longrightarrow> addBacklink n v r p = v p"
  by (simp add: addBacklink_def split: option.splits)

lemma addBacklinksToZettels_other:
  "\<forall>r \<in> set rs. path (the_note r) \<noteq> p \<Longrightarrow> addBacklinksToZettels v n rs p = v p"
  unfolding addBacklinksToZettels_def
  by (induction rs arbitrary: v) (simp_all add: addBacklink_other)

text \<open>
  Without \<open>$\<close> in the names and reasons, the two link steps leave every discovered
  relation linked in both documents.
\<close>

lemma links_bidirectional_without_dollar:
  assumes n: "CHR ''$'' \<notin> set (basename n)"
    and plain: "\<forall>r \<in> set rs. CHR ''$'' \<notin> set (linkNameOf (path (the_note r)))
                      \<and> CHR ''$'' \<notin> set (reason r)"
    and nfile: "v (tf_path n) = Some content"
    and other: "\<forall>r \<in> set rs. path (the_note r) \<noteq> tf_path n"
    and r: "r \<in> set rs" and rfile: "path (the_note r) \<in> dom v"
  shows "\<exists>v'. linkCreatedNote v n rs = Inr v'
           \<and> linksTo v' (tf_path n) (linkNameOf (path (the_note r)))
           \<and> linksTo v' (path (the_note r)) (basename n)"
proof -
  from addZKRelatedLinks_links [where v = v and n = n and rs = rs and r = r, OF plain nfile r]
  obtain v1 where
    v1: "addZKRelatedLinks v n rs = Inr v1"
    and l1: "linksTo v1 (tf_path n) (linkNameOf (path (the_note r)))"
    and same: "\<forall>p. p \<noteq> tf_path n \<longrightarrow> v1 p = v p" by blast
  let ?v2 = "addBacklinksToZettels v1 n rs"
  from r have "rs \<noteq> []" by auto
  with v1 have res: "linkCreatedNote v n rs = Inr ?v2" by (simp add: linkCreatedNote_def)
  from addBacklinksToZettels_other [OF other, of v1 n] l1
  have a: "linksTo ?v2 (tf_path n) (linkNameOf (path (the_note r)))"
    by (simp add: linksTo_def)
  from rfile same other r have "path (the_note r) \<in> dom v1" by (auto simp: dom_def)
  from addBacklinksToZettels_links [OF n r this]
  have b: "linksTo ?v2 (path (the_note r)) (basename n)" .
  from res a b show ?thesis by blast
qed


subsection \<open>A new note whose name holds a replacement pattern\<close>

lemmas sample_text_defs =
  sample_old_content_def sample_old_front_def sample_old_section_def linkedHeader_def
  linkedNotesTitle_def newline_def originalLabel_def arrow_def

lemma sample_old_path_of_related: "path (the_note sample_related) = sample_old_path"
  by (simp add: sample_related_def sample_similar_def sample_zettel_def sample_old_path_def)

lemma sample_new_basename: "basename sample_new_file = ''20260102-002 Save $1 a day''"
  by (simp add: sample_new_file_def zkFile_def)

lemma sample_new_path:
  "tf_path sample_new_file = ''10 Zettelkasten/20260102-002 Save $1 a day.md''"
  by (simp add: sample_new_file_def zkFile_def DEFAULT_SETTINGS_def)

lemma sample_paths_differ: "sample_old_path \<noteq> tf_path sample_new_file"
  by (simp add: sample_new_path sample_old_path_def)

lemma sample_backLink:
  "backLink sample_new_file sample_related
   = ''- [[20260102-002 Save $1 a day]] (85%)'' @ newline @ ''  '' @ arrow @ '' same topic''"
  by (simp add: backLink_def wikiLink_def sample_new_basename percentOf_def intToString_def toString.simps
      digit_char_def reasonLine_def sample_related_def sample_similar_def)

lemma sample_relatedLink:
  "relatedLink sample_related
   = ''- [[20260102-001 Old note]] (85%)'' @ newline @ ''  '' @ arrow @ '' same topic''"
  by (simp add: relatedLink_def wikiLink_def linkNameOf_def fileNameOf_def percentOf_def intToString_def
      toString.simps digit_char_def reasonLine_def sample_related_def sample_similar_def
      sample_zettel_def)

lemma sample_old_match:
  "matchLinkedSection sample_old_content = Some (sample_old_front, sample_old_section, newline, [])"
  by (simp add: matchLinkedSection_def sample_text_defs)

lemma sample_old_insert:
  "insertIntoLinkedSection sample_old_content (backLink sample_new_file sample_related)
   = sample_old_content_linked"
  unfolding insertIntoLinkedSection_def sample_old_match sample_backLink
  by (simp add: sample_old_content_linked_def sample_text_defs isDigit_def digitValue_def)

lemma sample_old_not_linked:
  "\<not> str_includes sample_old_content (wikiLink (basename sample_new_file))"
  by (simp add: wikiLink_def sample_new_basename sample_text_defs)

lemma sample_old_linked_not_linked:
  "\<not> str_includes sample_old_content_linked (wikiLink (basename sample_new_file))"
  by (simp add: wikiLink_def sample_new_basename sample_old_content_linked_def sample_text_defs)

lemma sample_new_insert:
  "insertIntoLinkedSection sample_new_content (relatedLink sample_related)
   = sample_new_content_linked"
  unfolding sample_relatedLink
  by (simp add: insertIntoLinkedSection_def matchLinkedSection_def sample_new_content_linked_def
      sample_new_content_def zkNoteContent_def sample_dollar_candidate_def sample_text_defs
      coreIdeaTitle_def whyImportantTitle_def contextTitle_def relatedConceptsLabel_def
      isDigit_def digitValue_def)

lemma sample_new_linked_includes:
  "str_includes sample_new_content_linked
     (wikiLink (linkNameOf (path (the_note sample_related))))"
  by (simp add: sample_new_content_linked_def sample_new_content_def zkNoteContent_def
      sample_dollar_candidate_def sample_text_defs coreIdeaTitle_def whyImportantTitle_def
      contextTitle_def relatedConceptsLabel_def linkNameOf_def fileNameOf_def wikiLink_def
      sample_related_def sample_similar_def sample_zettel_def)

lemma sample_addZKRelatedLinks:
  "addZKRelatedLinks sample_vault sample_new_file [sample_related]
   = Inr (sample_vault(tf_path sample_new_file \<mapsto> sample_new_content_linked))"
  using sample_paths_differ
  by (simp add: addZKRelatedLinks_def sample_vault_def sample_new_insert)

lemma sample_addBacklinks:
  "v sample_old_path = Some sample_old_content \<Longrightarrow>
   addBacklinksToZettels v sample_new_file [sample_related]
   = v(sample_old_path \<mapsto> sample_old_content_linked)"
  by (simp add: addBacklinksToZettels_def addBacklink_def sample_old_path_of_related
      sample_old_not_linked sample_old_insert)

text \<open>
  Claim C1 says that after a create the two link steps leave every discovered relation
  linked in both documents. The replacement string of \<open>content.replace\<close> is built from the
  link line, so a \<open>$1\<close> in the name of the new note is expanded to the first group of the
  match; the claim holds for names without \<open>$\<close> (\<open>links_bidirectional_without_dollar\<close>)
  and fails here: for the note created from the candidate \<open>Save $1 a day\<close>, with the older
  note \<open>20260102-001 Old note\<close> found as related, the new note gets its link to the older
  note, and the older note gets a line that is not a link to the new note.
\<close>

theorem create_path_backlink_missing:
  "linkCreatedNote sample_vault sample_new_file [sample_related]
     = Inr (sample_vault(tf_path sample_new_file \<mapsto> sample_new_content_linked,
                         sample_old_path \<mapsto> sample_old_content_linked))
   \<and> str_includes sample_new_content_linked
         (wikiLink (linkNameOf (path (the_note sample_related))))
   \<and> path (the_note sample_related) = sample_old_path
   \<and> \<not> str_includes sample_old_content_linked (wikiLink (basename sample_new_file))"
proof -
  have "(sample_vault(tf_path sample_new_file \<mapsto> sample_new_content_linked)) sample_old_path
      = Some sample_old_content"
    using sample_paths_differ by (simp add: sample_vault_def)
  from sample_addBacklinks [where v = "sample_vault(tf_path sample_new_file \<mapsto> sample_new_content_linked)", OF this]
  have "linkCreatedNote sample_vault sample_new_file [sample_related]
     = Inr (sample_vault(tf_path sample_new_file \<mapsto> sample_new_content_linked,
                         sample_old_path \<mapsto> sample_old_content_linked))"
    by (simp add: linkCreatedNote_def sample_addZKRelatedLinks)
  with sample_new_linked_includes sample_old_path_of_related sample_old_linked_not_linked
  show ?thesis by (intro conjI)
qed

lemma sample_old_linked_match:
  "matchLinkedSection sample_old_content_linked
   = Some (sample_old_front, drop (length sample_old_front) (butlast sample_old_content_linked),
           newline, [])"
  by (simp add: matchLinkedSection_def sample_old_content_linked_def sample_text_defs)

lemma sample_old_linked_insert:
  "insertIntoLinkedSection sample_old_content_linked (backLink sample_new_file sample_related)
   = sample_old_content_twice"
  unfolding insertIntoLinkedSection_def sample_old_linked_match sample_backLink
  by (simp add: sample_old_content_twice_def sample_old_content_linked_def sample_text_defs
      isDigit_def digitValue_def)

text \<open>
  Claim C6 says that a second run of \<open>addBacklinksToZettels\<close> on the same inputs adds
  nothing. It does so for names without \<open>$\<close> (\<open>backlinks_without_dollar\<close>); on the input
  above the line written by the first run does not contain the link that the guard looks
  for, and the second run writes a second line.
\<close>

theorem backlinks_not_idempotent_on_dollar:
  "addBacklinksToZettels sample_vault sample_new_file [sample_related]
     = sample_vault(sample_old_path \<mapsto> sample_old_content_linked)
   \<and> addBacklinksToZettels (addBacklinksToZettels sample_vault sample_new_file [sample_related])
        sample_new_file [sample_related]
     = sample_vault(sample_old_path \<mapsto> sample_old_content_twice)
   \<and> length sample_old_content_linked < length sample_old_content_twice
   \<and> \<not> str_includes sample_old_content_twice (wikiLink (basename sample_new_file))"
proof -
  have a: "addBacklinksToZettels sample_vault sample_new_file [sample_related]
     = sample_vault(sample_old_path \<mapsto> sample_old_content_linked)"
    using sample_paths_differ by (intro sample_addBacklinks) (simp add: sample_vault_def)
  have b: "addBacklinksToZettels (sample_vault(sample_old_path \<mapsto> sample_old_content_linked))
        sample_new_file [sample_related]
     = sample_vault(sample_old_path \<mapsto> sample_old_content_twice)"
    by (simp add: addBacklinksToZettels_def addBacklink_def sample_old_path_of_related
        sample_old_linked_not_linked sample_old_linked_insert)
  have c: "length sample_old_content_linked < length sample_old_content_twice"
    by (simp add: sample_old_content_twice_def sample_old_content_linked_def sample_text_defs)
  have d: "\<not> str_includes sample_old_content_twice (wikiLink (basename sample_new_file))"
    by (simp add: wikiLink_def sample_new_basename sample_old_content_twice_def
        sample_old_content_linked_def sample_text_defs)
  from b have b': "addBacklinksToZettels
        (addBacklinksToZettels sample_vault sample_new_file [sample_related])
        sample_new_file [sample_related]
     = sample_vault(sample_old_path \<mapsto> sample_old_content_twice)"
    by (simp only: a)
  from a b' c d show ?thesis by (intro conjI)
qed


end
